theory Spec2Isabelle
  imports Complex_Main "HOL-Library.Multiset"
begin

section \<open>JavaScript strings\<close>

text \<open>
  The script \<^verbatim>\<open>scripts/generate-content.js\<close> works on JavaScript strings. A string is
  modelled as a HOL \<^typ>\<open>string\<close>; one \<^typ>\<open>char\<close> stands for one UTF-16 code unit
  below 256 (the Latin-1 range). The string built-ins the script calls are written out
  below for this range, following ECMA-262.
\<close>

definition isWhiteSpace :: "char \<Rightarrow> bool" where
  \<comment> \<open>WhiteSpace and LineTerminator code units below 256: TAB, LF, VT, FF, CR, SP, NBSP.\<close>
  "isWhiteSpace c =
     (c = CHR 0x09 \<or> c = CHR 0x0A \<or> c = CHR 0x0B \<or> c = CHR 0x0C \<or> c = CHR 0x0D
      \<or> c = CHR 0x20 \<or> c = CHR 0xA0)"

definition trim :: "string \<Rightarrow> string" where
  \<comment> \<open>\<^verbatim>\<open>String.prototype.trim\<close>\<close>
  "trim s = rev (dropWhile isWhiteSpace (rev (dropWhile isWhiteSpace s)))"

definition indexOf :: "string \<Rightarrow> char \<Rightarrow> int" where
  \<comment> \<open>\<^verbatim>\<open>s.indexOf(c)\<close> for a one-character search string: the first position, or -1.\<close>
  "indexOf s c = (if c \<in> set s then int (length (takeWhile (\<lambda>x. x \<noteq> c) s)) else - 1)"

definition slice :: "string \<Rightarrow> int \<Rightarrow> int \<Rightarrow> string" where
  \<comment> \<open>\<^verbatim>\<open>s.slice(a, b)\<close> for \<open>0 \<le> a\<close> and \<open>0 \<le> b\<close>.\<close>
  "slice s a b = take (nat b - nat a) (drop (nat a) s)"

definition sliceFrom :: "string \<Rightarrow> int \<Rightarrow> string" where
  \<comment> \<open>\<^verbatim>\<open>s.slice(a)\<close> for \<open>0 \<le> a\<close>.\<close>
  "sliceFrom s a = drop (nat a) s"

fun isPrefix :: "string \<Rightarrow> string \<Rightarrow> bool" where
  "isPrefix [] s = True"
| "isPrefix (p # ps) [] = False"
| "isPrefix (p # ps) (c # cs) = (p = c \<and> isPrefix ps cs)"

fun includesStr :: "string \<Rightarrow> string \<Rightarrow> bool" where
  \<comment> \<open>\<^verbatim>\<open>s.includes(key)\<close>: \<open>key\<close> occurs in \<open>s\<close> as a substring.\<close>
  "includesStr [] key = (key = [])"
| "includesStr (c # cs) key = (isPrefix key (c # cs) \<or> includesStr cs key)"

fun consHead :: "char \<Rightarrow> string list \<Rightarrow> string list" where
  "consHead c [] = [[c]]"
| "consHead c (p # ps) = (c # p) # ps"

function splitSep :: "string \<Rightarrow> string \<Rightarrow> string list" where
  \<comment> \<open>\<^verbatim>\<open>s.split(sep)\<close> for a literal, non-empty separator (such as the pattern
      \<^verbatim>\<open>/\n---\n/\<close>): matches are taken left to right and do not overlap.\<close>
  "splitSep sep [] = [[]]"
| "splitSep sep (c # cs) =
     (if sep \<noteq> [] \<and> isPrefix sep (c # cs)
      then [] # splitSep sep (drop (length sep - 1) cs)
      else consHead c (splitSep sep cs))"
  by pat_completeness auto
termination
  by (relation "measure (\<lambda>(sep, s). length s)") auto

fun splitLines :: "string \<Rightarrow> string list" where
  \<comment> \<open>\<^verbatim>\<open>s.split(/\r?\n/)\<close>: at each position the pattern takes CR LF if it is there,
      else a single LF.\<close>
  "splitLines [] = [[]]"
| "splitLines [c] = (if c = CHR 0x0A then [[], []] else [[c]])"
| "splitLines (c # d # cs) =
     (if c = CHR 0x0D \<and> d = CHR 0x0A then [] # splitLines cs
      else if c = CHR 0x0A then [] # splitLines (d # cs)
      else consHead c (splitLines (d # cs)))"

fun joinSep :: "string \<Rightarrow> string list \<Rightarrow> string" where
  \<comment> \<open>\<^verbatim>\<open>parts.join(sep)\<close>\<close>
  "joinSep sep [] = []"
| "joinSep sep [p] = p"
| "joinSep sep (p # q # ps) = p @ sep @ joinSep sep (q # ps)"

section \<open>Plain objects used as dictionaries\<close>

text \<open>
  \<^verbatim>\<open>head\<close> in \<^verbatim>\<open>parseMetaTxt\<close> and \<^verbatim>\<open>map\<close> in \<^verbatim>\<open>collectStats\<close> are object literals
  \<^verbatim>\<open>{}\<close> filled by \<^verbatim>\<open>obj[key] = value\<close>. Such an object inherits from
  \<^verbatim>\<open>Object.prototype\<close>, whose only setter is the accessor \<^verbatim>\<open>__proto__\<close>: assigning a
  string or a number to \<^verbatim>\<open>obj["__proto__"]\<close> calls that setter, which ignores a value
  that is neither an object nor null, so no own property is created. Every other key
  becomes an own property. The own enumerable properties are a map.
\<close>

definition objSet :: "(string \<rightharpoonup> 'v) \<Rightarrow> string \<Rightarrow> 'v \<Rightarrow> (string \<rightharpoonup> 'v)" where
  "objSet obj key v = (if key = ''__proto__'' then obj else obj(key \<mapsto> v))"

section \<open>Errors\<close>

text \<open>
  What the script can throw: a \<^verbatim>\<open>TypeError\<close> (a method called on \<^verbatim>\<open>undefined\<close>) and the
  system errors of \<^verbatim>\<open>fs/promises\<close>, named by their code. A function that can throw
  returns \<open>error + 'a\<close>, with \<open>Inl\<close> the exception.
\<close>

datatype error = TypeError | ENOENT | EACCES | ENOTDIR | EISDIR | EIO

section \<open>parseMetaTxt\<close>

definition delimiter :: string where
  \<comment> \<open>the text matched by \<^verbatim>\<open>/\n---\n/\<close>\<close>
  "delimiter = [CHR 0x0A, CHR ''-'', CHR ''-'', CHR ''-'', CHR 0x0A]"

definition headerLine :: "(string \<rightharpoonup> string) \<Rightarrow> string \<Rightarrow> (string \<rightharpoonup> string)" where
  \<comment> \<open>one iteration of the loop over the header lines\<close>
  "headerLine head line =
     (if trim line = [] then head
      else let idx = indexOf line (CHR '':'') in
        if idx = - 1 then head
        else objSet head (trim (slice line 0 idx)) (trim (sliceFrom line (idx + 1))))"

definition parseHeader :: "string \<Rightarrow> (string \<rightharpoonup> string)" where
  \<comment> \<open>the loop \<^verbatim>\<open>for (const line of headRaw.split(/\r?\n/))\<close>, from \<^verbatim>\<open>head = {}\<close>\<close>
  "parseHeader headRaw = foldl headerLine Map.empty (splitLines headRaw)"

definition parseMetaTxt :: "string \<Rightarrow> error + (string \<rightharpoonup> string)" where
  \<comment> \<open>\<^verbatim>\<open>const [headRaw, ...rest] = txt.split(/\n---\n/)\<close>: on an empty array
      \<^verbatim>\<open>headRaw\<close> would be \<^verbatim>\<open>undefined\<close> and \<^verbatim>\<open>headRaw.split\<close> would throw.\<close>
  "parseMetaTxt txt =
     (case splitSep delimiter txt of
        [] \<Rightarrow> Inl TypeError
      | headRaw # rest \<Rightarrow>
          let head = parseHeader headRaw;
              body = (if rest \<noteq> [] then trim (joinSep delimiter rest) else [])
          in Inr (head(''description'' \<mapsto> body)))"

section \<open>The host: file system and collation\<close>

text \<open>
  The script reads the file system through \<^verbatim>\<open>fs.readdir\<close> (with \<^verbatim>\<open>withFileTypes\<close>),
  \<^verbatim>\<open>fs.readFile\<close> and \<^verbatim>\<open>fs.access\<close>, writes through \<^verbatim>\<open>fs.mkdir\<close> and \<^verbatim>\<open>fs.writeFile\<close>,
  and compares strings with \<^verbatim>\<open>String.prototype.localeCompare\<close>, whose result is the
  host's collation (ICU). These are the parameters of the model: a host gives, for each
  path, the outcome of each call. \<^verbatim>\<open>CONTENT\<close> and \<^verbatim>\<open>PUBLIC_DATA\<close> are the two directories
  the script derives from its own location.
\<close>

datatype dirent_kind =
  File | Directory | SymbolicLink | FIFO | Socket | CharacterDevice | BlockDevice | Unknown

record dirent =
  name :: string
  kind :: dirent_kind

definition isDirectory :: "dirent \<Rightarrow> bool" where
  "isDirectory d = (kind d = Directory)"

definition isFile :: "dirent \<Rightarrow> bool" where
  "isFile d = (kind d = File)"

record host =
  CONTENT :: string
  PUBLIC_DATA :: string
  readdir :: "string \<Rightarrow> error + dirent list"
  readFile :: "string \<Rightarrow> error + string"
  access :: "string \<Rightarrow> error + unit"
  mkdir :: "string \<Rightarrow> error + unit"
  writeFile :: "string \<Rightarrow> error + unit"
  localeCompare :: "string \<Rightarrow> string \<Rightarrow> string option \<Rightarrow> int"
    \<comment> \<open>\<^verbatim>\<open>a.localeCompare(b, locales)\<close>; \<open>None\<close> when \<^verbatim>\<open>locales\<close> is not given\<close>

definition pathJoin :: "string \<Rightarrow> string \<Rightarrow> string" where
  \<comment> \<open>\<^verbatim>\<open>path.join(dir, name)\<close> for a normalised \<open>dir\<close> and a file name\<close>
  "pathJoin dir file = dir @ ''/'' @ file"

definition readDirIfExists :: "host \<Rightarrow> string \<Rightarrow> dirent list" where
  "readDirIfExists h dir = (case readdir h dir of Inl e \<Rightarrow> [] | Inr items \<Rightarrow> items)"

section \<open>Asset resolution\<close>

text \<open>
  The loop \<^verbatim>\<open>for (const c of candidates) { try { await fs.access(...); cover = ...; break }
  catch {} }\<close>, which the three collectors repeat with their own directory, public prefix
  and candidate list.
\<close>

fun resolveAsset :: "host \<Rightarrow> string \<Rightarrow> string \<Rightarrow> string list \<Rightarrow> string option" where
  "resolveAsset h dir pub [] = None"
| "resolveAsset h dir pub (c # cs) =
     (case access h (pathJoin dir c) of
        Inr u \<Rightarrow> Some (pub @ c)
      | Inl e \<Rightarrow> resolveAsset h dir pub cs)"

definition coverCandidates :: "string list" where
  "coverCandidates = [''cover.png'', ''cover.jpg'', ''cover.jpeg'', ''cover.webp'']"

definition photoCandidates :: "string list" where
  "photoCandidates = [''photo.png'', ''photo.jpg'', ''photo.jpeg'', ''photo.webp'']"

section \<open>Array.prototype.sort\<close>

text \<open>
  \<^verbatim>\<open>out.sort(comparefn)\<close> is a stable sort that reads only the sign of the comparator's
  result. For a consistent comparator every stable sort returns the same array; it is
  modelled by stable insertion. (For an inconsistent comparator ECMA-262 leaves the
  order to the implementation.)
\<close>

fun insertBy :: "('a \<Rightarrow> 'a \<Rightarrow> int) \<Rightarrow> 'a \<Rightarrow> 'a list \<Rightarrow> 'a list" where
  "insertBy cmp x [] = [x]"
| "insertBy cmp x (y # ys) = (if cmp x y \<le> 0 then x # y # ys else y # insertBy cmp x ys)"

fun sortBy :: "('a \<Rightarrow> 'a \<Rightarrow> int) \<Rightarrow> 'a list \<Rightarrow> 'a list" where
  "sortBy cmp [] = []"
| "sortBy cmp (x # xs) = insertBy cmp x (sortBy cmp xs)"

definition truthy :: "string option \<Rightarrow> bool" where
  \<comment> \<open>a value that is a string or \<^verbatim>\<open>null\<close>, used as a condition: \<^verbatim>\<open>null\<close> and \<^verbatim>\<open>""\<close> are falsy\<close>
  "truthy v = (case v of None \<Rightarrow> False | Some s \<Rightarrow> s \<noteq> [])"

definition orElse :: "'a option \<Rightarrow> 'a \<Rightarrow> 'a" where
  \<comment> \<open>\<^verbatim>\<open>v ?? d\<close> for a property read \<open>v\<close> that is \<^verbatim>\<open>undefined\<close> when \<open>None\<close>\<close>
  "orElse v d = (case v of None \<Rightarrow> d | Some x \<Rightarrow> x)"

section \<open>collectProjects\<close>

record project =
  slug :: string
  title :: string
  date :: "string option"
  tags :: "string list"
  status :: string
  links :: "string option"
  cover :: "string option"
  gallery :: "string list"
  description :: string
  path :: string

definition projectsBase :: "host \<Rightarrow> string" where
  "projectsBase h = pathJoin (CONTENT h) ''projects''"

definition projectGallery :: "host \<Rightarrow> string \<Rightarrow> string list" where
  "projectGallery h sl =
     map (\<lambda>g. ''/content/projects/'' @ sl @ ''/gallery/'' @ dirent.name g)
       (filter isFile (readDirIfExists h (pathJoin (pathJoin (projectsBase h) sl) ''gallery'')))"

definition projectRecord :: "host \<Rightarrow> string \<Rightarrow> (string \<rightharpoonup> string) \<Rightarrow> project" where
  "projectRecord h sl meta =
     \<lparr> project.slug = sl,
       project.title = orElse (meta ''title'') sl,
       project.date = meta ''date'',
       project.tags =
         filter (\<lambda>s. s \<noteq> []) (map trim (splitSep '','' (orElse (meta ''tags'') []))),
       project.status = orElse (meta ''status'') ''active'',
       project.links = meta ''links'',
       project.cover =
         resolveAsset h (pathJoin (projectsBase h) sl)
           (''/content/projects/'' @ sl @ ''/'') coverCandidates,
       project.gallery = projectGallery h sl,
       project.description = orElse (meta ''description'') [],
       project.path = ''/content/projects/'' @ sl @ ''/'' \<rparr>"

fun projectsLoop :: "host \<Rightarrow> dirent list \<Rightarrow> project list \<Rightarrow> error + project list" where
  \<comment> \<open>the loop \<^verbatim>\<open>for (const dirent of items)\<close>, with \<^verbatim>\<open>out\<close> as it stands; the message
      \<^verbatim>\<open>console.warn\<close> prints before \<^verbatim>\<open>continue\<close> is left out, here and in the two
      other collectors\<close>
  "projectsLoop h [] out = Inr out"
| "projectsLoop h (d # items) out =
     (if \<not> isDirectory d then projectsLoop h items out
      else
        case readFile h (pathJoin (pathJoin (projectsBase h) (dirent.name d)) ''meta.txt'') of
          Inl e \<Rightarrow> projectsLoop h items out
        | Inr metaTxt \<Rightarrow>
            (case parseMetaTxt metaTxt of
               Inl e \<Rightarrow> Inl e
             | Inr meta \<Rightarrow> projectsLoop h items (out @ [projectRecord h (dirent.name d) meta])))"

definition projectsCompare :: "host \<Rightarrow> project \<Rightarrow> project \<Rightarrow> int" where
  "projectsCompare h a b =
     (if truthy (project.date a) \<and> truthy (project.date b)
      then localeCompare h (the (project.date b)) (the (project.date a)) None
      else if truthy (project.date a) then - 1
      else if truthy (project.date b) then 1
      else localeCompare h (project.title a) (project.title b) (Some ''pl''))"

definition collectProjects :: "host \<Rightarrow> error + project list" where
  "collectProjects h =
     (case projectsLoop h (readDirIfExists h (projectsBase h)) [] of
        Inl e \<Rightarrow> Inl e
      | Inr out \<Rightarrow> Inr (sortBy (projectsCompare h) out))"

section \<open>collectNews\<close>

record news =
  slug :: string
  title :: string
  date :: "string option"
  author :: string
  cover :: "string option"
  description :: string
  path :: string

definition newsBase :: "host \<Rightarrow> string" where
  "newsBase h = pathJoin (CONTENT h) ''news''"

definition newsRecord :: "host \<Rightarrow> string \<Rightarrow> (string \<rightharpoonup> string) \<Rightarrow> news" where
  "newsRecord h sl meta =
     \<lparr> news.slug = sl,
       news.title = orElse (meta ''title'') sl,
       news.date = meta ''date'',
       news.author = orElse (meta ''author'') ''Skylink'',
       news.cover =
         resolveAsset h (pathJoin (newsBase h) sl)
           (''/content/news/'' @ sl @ ''/'') coverCandidates,
       news.description = orElse (meta ''description'') [],
       news.path = ''/content/news/'' @ sl @ ''/'' \<rparr>"

fun newsLoop :: "host \<Rightarrow> dirent list \<Rightarrow> news list \<Rightarrow> error + news list" where
  "newsLoop h [] out = Inr out"
| "newsLoop h (d # items) out =
     (if \<not> isDirectory d then newsLoop h items out
      else
        case readFile h (pathJoin (pathJoin (newsBase h) (dirent.name d)) ''meta.txt'') of
          Inl e \<Rightarrow> newsLoop h items out
        | Inr metaTxt \<Rightarrow>
            (case parseMetaTxt metaTxt of
               Inl e \<Rightarrow> Inl e
             | Inr meta \<Rightarrow> newsLoop h items (out @ [newsRecord h (dirent.name d) meta])))"

definition newsCompare :: "host \<Rightarrow> news \<Rightarrow> news \<Rightarrow> int" where
  "newsCompare h a b =
     (if truthy (news.date a) \<and> truthy (news.date b)
      then localeCompare h (the (news.date b)) (the (news.date a)) None
      else localeCompare h (news.slug a) (news.slug b) None)"

definition collectNews :: "host \<Rightarrow> error + news list" where
  "collectNews h =
     (case newsLoop h (readDirIfExists h (newsBase h)) [] of
        Inl e \<Rightarrow> Inl e
      | Inr out \<Rightarrow> Inr (sortBy (newsCompare h) out))"

section \<open>collectTeam\<close>

record member =
  slug :: string
  name :: string
  role :: string
  email :: string
  links :: string
  photo :: "string option"
  bio :: string

definition teamBase :: "host \<Rightarrow> string" where
  "teamBase h = pathJoin (CONTENT h) ''team''"

definition memberRecord :: "host \<Rightarrow> string \<Rightarrow> (string \<rightharpoonup> string) \<Rightarrow> member" where
  "memberRecord h sl meta =
     \<lparr> member.slug = sl,
       member.name = orElse (meta ''name'') sl,
       member.role = orElse (meta ''role'') [],
       member.email = orElse (meta ''email'') [],
       member.links = orElse (meta ''links'') [],
       member.photo =
         resolveAsset h (pathJoin (teamBase h) sl)
           (''/content/team/'' @ sl @ ''/'') photoCandidates,
       member.bio = orElse (meta ''description'') [] \<rparr>"

fun teamLoop :: "host \<Rightarrow> dirent list \<Rightarrow> member list \<Rightarrow> error + member list" where
  "teamLoop h [] out = Inr out"
| "teamLoop h (d # items) out =
     (if \<not> isDirectory d then teamLoop h items out
      else
        case readFile h (pathJoin (pathJoin (teamBase h) (dirent.name d)) ''meta.txt'') of
          Inl e \<Rightarrow> teamLoop h items out
        | Inr metaTxt \<Rightarrow>
            (case parseMetaTxt metaTxt of
               Inl e \<Rightarrow> Inl e
             | Inr meta \<Rightarrow> teamLoop h items (out @ [memberRecord h (dirent.name d) meta])))"

definition toLowerChar :: "char \<Rightarrow> char" where
  \<comment> \<open>the lower-case mapping of Unicode below 256: A-Z and the capital letters
      U+00C0-U+00DE (but not the sign U+00D7) move up by 32\<close>
  "toLowerChar c =
     (let n = (of_char c :: nat) in
      if (65 \<le> n \<and> n \<le> 90) \<or> (192 \<le> n \<and> n \<le> 222 \<and> n \<noteq> 215)
      then char_of (n + 32) else c)"

definition toLowerCase :: "string \<Rightarrow> string" where
  "toLowerCase s = map toLowerChar s"

definition rolePriority :: "(string \<times> int) list" where
  \<comment> \<open>\<^verbatim>\<open>Object.entries(rolePriority)\<close>: string keys in the order the literal lists them\<close>
  "rolePriority = [(''president'', 3), (''leader'', 2), (''head'', 1)]"

definition roleScore :: "string \<Rightarrow> int" where
  "roleScore r =
     (let aRole = toLowerCase r in
      case find (\<lambda>(key, v). includesStr aRole key) rolePriority of
        None \<Rightarrow> 0
      | Some (key, v) \<Rightarrow> v)"

definition teamCompare :: "host \<Rightarrow> member \<Rightarrow> member \<Rightarrow> int" where
  "teamCompare h a b =
     (let aScore = roleScore (member.role a); bScore = roleScore (member.role b) in
      if aScore \<noteq> bScore then bScore - aScore
      else localeCompare h (member.name a) (member.name b) (Some ''pl''))"

definition collectTeam :: "host \<Rightarrow> error + member list" where
  "collectTeam h =
     (case teamLoop h (readDirIfExists h (teamBase h)) [] of
        Inl e \<Rightarrow> Inl e
      | Inr out \<Rightarrow> Inr (sortBy (teamCompare h) out))"

section \<open>Number(string)\<close>

text \<open>
  \<^verbatim>\<open>Number(valueRaw)\<close> is StringToNumber of ECMA-262: white space is stripped, the empty
  string is \<open>+0\<close>, the rest must be a StrNumericLiteral (a signed decimal literal with
  optional fraction and exponent, \<^verbatim>\<open>Infinity\<close>, or an unsigned binary, octal or
  hexadecimal integer), and its mathematical value is rounded to the nearest double,
  ties to even (for a literal of more than 20 significant digits ECMA-262 also allows
  the rounding of an approximation; V8 rounds the value itself). A finite double is held
  as the rational it is.
\<close>

datatype jsnumber = NaN | PosInfinity | NegInfinity | NegZero | Num rat

definition isFinite :: "jsnumber \<Rightarrow> bool" where
  \<comment> \<open>\<^verbatim>\<open>Number.isFinite\<close>\<close>
  "isFinite n = (case n of Num q \<Rightarrow> True | NegZero \<Rightarrow> True | _ \<Rightarrow> False)"

definition digitValue :: "char \<Rightarrow> nat" where
  "digitValue c =
     (let n = (of_char c :: nat) in
      if 48 \<le> n \<and> n \<le> 57 then n - 48
      else if 97 \<le> n \<and> n \<le> 102 then n - 87
      else if 65 \<le> n \<and> n \<le> 70 then n - 55
      else 36)"

definition isDigitOf :: "nat \<Rightarrow> char \<Rightarrow> bool" where
  "isDigitOf radix c = (digitValue c < radix)"

definition digitsValue :: "nat \<Rightarrow> string \<Rightarrow> int" where
  "digitsValue radix ds = foldl (\<lambda>a c. a * int radix + int (digitValue c)) 0 ds"

definition nonDecimalLiteral :: "string \<Rightarrow> int option" where
  \<comment> \<open>NonDecimalIntegerLiteral: \<^verbatim>\<open>0b\<close>, \<^verbatim>\<open>0o\<close> or \<^verbatim>\<open>0x\<close> (either case) and at least one digit\<close>
  "nonDecimalLiteral s =
     (case s of
        c0 # c1 # ds \<Rightarrow>
          (let radix =
             (if c1 = CHR ''b'' \<or> c1 = CHR ''B'' then 2
              else if c1 = CHR ''o'' \<or> c1 = CHR ''O'' then 8
              else if c1 = CHR ''x'' \<or> c1 = CHR ''X'' then 16
              else 0) in
           if c0 = CHR ''0'' \<and> radix \<noteq> 0 \<and> ds \<noteq> [] \<and> list_all (isDigitOf radix) ds
           then Some (digitsValue radix ds) else None)
      | _ \<Rightarrow> None)"

definition signedInteger :: "string \<Rightarrow> int option" where
  \<comment> \<open>SignedInteger: decimal digits with an optional sign\<close>
  "signedInteger s =
     (let neg = (s \<noteq> [] \<and> hd s = CHR ''-'');
          ds = (if s \<noteq> [] \<and> (hd s = CHR ''+'' \<or> hd s = CHR ''-'') then tl s else s) in
      if ds \<noteq> [] \<and> list_all (isDigitOf 10) ds
      then Some (if neg then - digitsValue 10 ds else digitsValue 10 ds)
      else None)"

definition exponentPart :: "string \<Rightarrow> int option" where
  \<comment> \<open>an optional ExponentPart: nothing, or \<^verbatim>\<open>e\<close>/\<^verbatim>\<open>E\<close> and a SignedInteger\<close>
  "exponentPart s =
     (if s = [] then Some 0
      else if hd s = CHR ''e'' \<or> hd s = CHR ''E'' then signedInteger (tl s)
      else None)"

definition unsignedDecimalMV :: "string \<Rightarrow> rat option" where
  \<comment> \<open>the mathematical value of a StrUnsignedDecimalLiteral other than \<^verbatim>\<open>Infinity\<close>\<close>
  "unsignedDecimalMV s =
     (let ip = takeWhile (isDigitOf 10) s;
          r1 = dropWhile (isDigitOf 10) s;
          dot = (r1 \<noteq> [] \<and> hd r1 = CHR ''.'');
          fp = (if dot then takeWhile (isDigitOf 10) (tl r1) else []);
          r2 = (if dot then dropWhile (isDigitOf 10) (tl r1) else r1) in
      if ip = [] \<and> fp = [] then None
      else case exponentPart r2 of
        None \<Rightarrow> None
      | Some e \<Rightarrow>
          Some ((of_int (digitsValue 10 ip) + of_int (digitsValue 10 fp) / 10 ^ length fp)
                * 10 powi e))"

definition roundHalfEven :: "rat \<Rightarrow> int" where
  "roundHalfEven q =
     (let f = \<lfloor>q\<rfloor>; r = q - of_int f in
      if r < 1 / 2 then f else if 1 / 2 < r then f + 1 else if even f then f else f + 1)"

function bitLength :: "int \<Rightarrow> nat" where
  "bitLength n = (if n \<le> 0 then 0 else Suc (bitLength (n div 2)))"
  by pat_completeness auto
termination
  by (relation "measure nat") auto

declare bitLength.simps [simp del]

definition floorLog2 :: "rat \<Rightarrow> int" where
  \<comment> \<open>for \<open>0 < q\<close>: the \<open>e\<close> with \<open>2 powi e \<le> q < 2 powi (e + 1)\<close>\<close>
  "floorLog2 q =
     (let k = int (bitLength (fst (quotient_of q))) - int (bitLength (snd (quotient_of q)))
      in if 2 powi k \<le> q then k else k - 1)"

definition toDouble :: "rat \<Rightarrow> rat option" where
  \<comment> \<open>for \<open>0 < q\<close>: the double nearest to \<open>q\<close> (53 significant bits, least exponent
      \<open>-1022\<close>), ties to even; \<open>None\<close> when that is beyond the largest double\<close>
  "toDouble q =
     (let e = max (floorLog2 q) (- 1022);
          ulp = 2 powi (e - 52);
          v = of_int (roundHalfEven (q / ulp)) * ulp in
      if 2 ^ 1024 \<le> v then None else Some v)"

definition numberOfMV :: "bool \<Rightarrow> rat \<Rightarrow> jsnumber" where
  \<comment> \<open>the Number value of the mathematical value \<open>q \<ge> 0\<close> of a literal, negated when \<open>neg\<close>\<close>
  "numberOfMV neg q =
     (if q = 0 then (if neg then NegZero else Num 0)
      else case toDouble q of
        None \<Rightarrow> (if neg then NegInfinity else PosInfinity)
      | Some v \<Rightarrow> if v = 0 then (if neg then NegZero else Num 0)
                  else Num (if neg then - v else v))"

definition strDecimalLiteral :: "string \<Rightarrow> jsnumber" where
  "strDecimalLiteral s =
     (let neg = (s \<noteq> [] \<and> hd s = CHR ''-'');
          u = (if s \<noteq> [] \<and> (hd s = CHR ''+'' \<or> hd s = CHR ''-'') then tl s else s) in
      if u = ''Infinity'' then (if neg then NegInfinity else PosInfinity)
      else case unsignedDecimalMV u of
        None \<Rightarrow> NaN
      | Some q \<Rightarrow> numberOfMV neg q)"

definition Number :: "string \<Rightarrow> jsnumber" where
  "Number str =
     (let s = trim str in
      if s = [] then Num 0
      else case nonDecimalLiteral s of
        Some n \<Rightarrow> numberOfMV False (of_int n)
      | None \<Rightarrow> strDecimalLiteral s)"

section \<open>collectStats\<close>

datatype stat = NumberValue jsnumber | StringValue string

definition statsLine :: "(string \<rightharpoonup> stat) \<Rightarrow> string \<Rightarrow> (string \<rightharpoonup> stat)" where
  \<comment> \<open>one iteration of the loop over the lines of \<^verbatim>\<open>stats.txt\<close>\<close>
  "statsLine m line =
     (if trim line = [] then m
      else let idx = indexOf line (CHR '':'') in
        if idx = - 1 then m
        else
          let key = trim (slice line 0 idx);
              valueRaw = trim (sliceFrom line (idx + 1));
              num = Number valueRaw
          in objSet m key (if isFinite num then NumberValue num else StringValue valueRaw))"

definition parseStats :: "string \<Rightarrow> (string \<rightharpoonup> stat)" where
  \<comment> \<open>the body of the \<^verbatim>\<open>try\<close> block once the file is read\<close>
  "parseStats txt = foldl statsLine Map.empty (splitLines txt)"

definition statsFile :: "host \<Rightarrow> string" where
  "statsFile h = pathJoin (pathJoin (CONTENT h) ''stats'') ''stats.txt''"

definition collectStats :: "host \<Rightarrow> (string \<rightharpoonup> stat)" where
  "collectStats h =
     (case readFile h (statsFile h) of
        Inl e \<Rightarrow> Map.empty
      | Inr txt \<Rightarrow> parseStats txt)"

section \<open>main\<close>

text \<open>
  \<^verbatim>\<open>main\<close> creates \<^verbatim>\<open>PUBLIC_DATA\<close>, awaits the four collectors and writes the four
  files. An exception that reaches \<^verbatim>\<open>main().catch\<close> ends the run with
  \<^verbatim>\<open>process.exit(1)\<close>: the result \<open>Inl\<close>. A run that completes returns what it wrote.
\<close>

record artifacts =
  projects_json :: "project list"
  news_json :: "news list"
  team_json :: "member list"
  stats_json :: "string \<rightharpoonup> stat"

definition main :: "host \<Rightarrow> error + artifacts" where
  "main h =
     (case mkdir h (PUBLIC_DATA h) of Inl e \<Rightarrow> Inl e | Inr u0 \<Rightarrow>
      case collectProjects h of Inl e \<Rightarrow> Inl e | Inr projects \<Rightarrow>
      case collectNews h of Inl e \<Rightarrow> Inl e | Inr newsItems \<Rightarrow>
      case collectTeam h of Inl e \<Rightarrow> Inl e | Inr team \<Rightarrow>
      let stats = collectStats h in
      case writeFile h (pathJoin (PUBLIC_DATA h) ''projects.json'') of Inl e \<Rightarrow> Inl e | Inr u1 \<Rightarrow>
      case writeFile h (pathJoin (PUBLIC_DATA h) ''news.json'') of Inl e \<Rightarrow> Inl e | Inr u2 \<Rightarrow>
      case writeFile h (pathJoin (PUBLIC_DATA h) ''team.json'') of Inl e \<Rightarrow> Inl e | Inr u3 \<Rightarrow>
      case writeFile h (pathJoin (PUBLIC_DATA h) ''stats.json'') of Inl e \<Rightarrow> Inl e | Inr u4 \<Rightarrow>
      Inr \<lparr> projects_json = projects, news_json = newsItems, team_json = team,
            stats_json = stats \<rparr>)"

section \<open>Auxiliary notions for the statements\<close>

text \<open>
  The three collectors run the same loop over the entries of their root; \<open>itemsLoop\<close>
  is that loop with the root, the reader and the record builder as parameters. The
  lemmas \<open>projectsLoop_itemsLoop\<close>, \<open>newsLoop_itemsLoop\<close> and \<open>teamLoop_itemsLoop\<close> show that
  each collector's loop is an instance.
\<close>

fun itemsLoop ::
  "(string \<Rightarrow> error + string) \<Rightarrow> string \<Rightarrow> (string \<Rightarrow> (string \<rightharpoonup> string) \<Rightarrow> 'r)
   \<Rightarrow> dirent list \<Rightarrow> 'r list \<Rightarrow> error + 'r list" where
  "itemsLoop rf base mk [] out = Inr out"
| "itemsLoop rf base mk (d # items) out =
     (if \<not> isDirectory d then itemsLoop rf base mk items out
      else
        case rf (pathJoin (pathJoin base (dirent.name d)) ''meta.txt'') of
          Inl e \<Rightarrow> itemsLoop rf base mk items out
        | Inr metaTxt \<Rightarrow>
            (case parseMetaTxt metaTxt of
               Inl e \<Rightarrow> Inl e
             | Inr meta \<Rightarrow> itemsLoop rf base mk items (out @ [mk (dirent.name d) meta])))"

definition metaPath :: "string \<Rightarrow> string \<Rightarrow> string" where
  \<comment> \<open>the metadata document of the item \<open>n\<close> under the collection root \<open>base\<close>\<close>
  "metaPath base n = pathJoin (pathJoin base n) ''meta.txt''"

definition hasColon :: "string \<Rightarrow> bool" where
  "hasColon line = (CHR '':'' \<in> set line)"

definition lineKey :: "string \<Rightarrow> string" where
  \<comment> \<open>the text of a line before its first colon, trimmed\<close>
  "lineKey line = trim (takeWhile (\<lambda>c. c \<noteq> CHR '':'') line)"

definition lineValue :: "string \<Rightarrow> string" where
  \<comment> \<open>the text of a line after its first colon, trimmed\<close>
  "lineValue line = trim (drop 1 (dropWhile (\<lambda>c. c \<noteq> CHR '':'') line))"


definition existsProbe :: "host \<Rightarrow> string \<Rightarrow> bool" where
  \<comment> \<open>the file exists for the script: \<^verbatim>\<open>fs.access\<close> on it does not throw\<close>
  "existsProbe h p = (case access h p of Inr u \<Rightarrow> True | Inl e \<Rightarrow> False)"

definition hasDate :: "string option \<Rightarrow> bool" where
  \<comment> \<open>a record has a date when its \<^verbatim>\<open>date\<close> is a non-empty string, which is what the
      comparators test (\<^verbatim>\<open>a.date && b.date\<close>)\<close>
  "hasDate d = truthy d"

definition consistentCollation :: "host \<Rightarrow> bool" where
  \<comment> \<open>the host's \<^verbatim>\<open>localeCompare\<close> is a consistent order under every locale: swapping the
      arguments swaps the sign, and "not after" is transitive. With such a collation the
      comparators of projects and team are consistent comparators, for which
      \<^verbatim>\<open>Array.prototype.sort\<close> returns the stably sorted array whatever its algorithm.\<close>
  "consistentCollation h =
     ((\<forall>a b l. (localeCompare h a b l < 0) = (0 < localeCompare h b a l))
      \<and> (\<forall>a b c l. localeCompare h a b l \<le> 0 \<and> localeCompare h b c l \<le> 0
            \<longrightarrow> localeCompare h a c l \<le> 0))"

definition teamBefore :: "host \<Rightarrow> member \<Rightarrow> member \<Rightarrow> bool" where
  \<comment> \<open>\<open>x\<close> may stand before \<open>y\<close> in the team: a higher score, or the same score and a name
      that is not after under the locale \<^verbatim>\<open>pl\<close>\<close>
  "teamBefore h x y =
     (roleScore (member.role y) < roleScore (member.role x)
      \<or> (roleScore (member.role x) = roleScore (member.role y)
          \<and> localeCompare h (member.name x) (member.name y) (Some ''pl'') \<le> 0))"

definition projectBefore :: "host \<Rightarrow> project \<Rightarrow> project \<Rightarrow> bool" where
  \<comment> \<open>\<open>x\<close> may stand before \<open>y\<close> among the projects: both dated and the date of \<open>y\<close> not
      after that of \<open>x\<close> in the host's collation; or \<open>x\<close> dated and \<open>y\<close> not; or neither
      dated and the title of \<open>x\<close> not after that of \<open>y\<close> under the locale \<^verbatim>\<open>pl\<close>\<close>
  "projectBefore h x y =
     (if hasDate (project.date x) \<and> hasDate (project.date y)
      then localeCompare h (the (project.date y)) (the (project.date x)) None \<le> 0
      else if hasDate (project.date x) then True
      else if hasDate (project.date y) then False
      else localeCompare h (project.title x) (project.title y) (Some ''pl'') \<le> 0)"

section \<open>Example hosts\<close>

fun codeUnitCompare :: "string \<Rightarrow> string \<Rightarrow> int" where
  \<comment> \<open>a collation for the examples: the lexicographic order of the code units\<close>
  "codeUnitCompare [] [] = 0"
| "codeUnitCompare [] (b # bs) = - 1"
| "codeUnitCompare (a # as) [] = 1"
| "codeUnitCompare (a # as) (b # bs) =
     (if (of_char a :: nat) < of_char b then - 1
      else if (of_char b :: nat) < of_char a then 1
      else codeUnitCompare as bs)"

definition deniedHost :: host where
  \<comment> \<open>every directory listing is refused (permission denied); nothing can be read;
      the output directory can be created and written\<close>
  "deniedHost =
     \<lparr> CONTENT = ''/site/content'', PUBLIC_DATA = ''/site/public/data'',
       readdir = (\<lambda>p. Inl EACCES),
       readFile = (\<lambda>p. Inl EACCES),
       access = (\<lambda>p. Inl EACCES),
       mkdir = (\<lambda>p. Inr ()),
       writeFile = (\<lambda>p. Inr ()),
       localeCompare = (\<lambda>a b l. codeUnitCompare a b) \<rparr>"

definition siteListing :: "string \<Rightarrow> error + dirent list" where
  "siteListing p =
     (if p = ''/site/content/projects'' then
        Inr [\<lparr> dirent.name = ''rocket'', dirent.kind = Directory \<rparr>,
             \<lparr> dirent.name = ''notes.txt'', dirent.kind = File \<rparr>,
             \<lparr> dirent.name = ''draft'', dirent.kind = Directory \<rparr>]
      else if p = ''/site/content/news'' then
        Inr [\<lparr> dirent.name = ''launch'', dirent.kind = Directory \<rparr>,
             \<lparr> dirent.name = ''old'', dirent.kind = SymbolicLink \<rparr>,
             \<lparr> dirent.name = ''empty'', dirent.kind = Directory \<rparr>]
      else if p = ''/site/content/team'' then
        Inr [\<lparr> dirent.name = ''ada'', dirent.kind = Directory \<rparr>,
             \<lparr> dirent.name = ''list.csv'', dirent.kind = File \<rparr>,
             \<lparr> dirent.name = ''ghost'', dirent.kind = Directory \<rparr>]
      else if p = ''/site/content/projects/rocket/gallery'' then
        Inr [\<lparr> dirent.name = ''a.png'', dirent.kind = File \<rparr>, \<lparr> dirent.name = ''raw'', dirent.kind = Directory \<rparr>]
      else Inl ENOENT)"

definition siteFiles :: "string \<Rightarrow> error + string" where
  "siteFiles p =
     (if p = ''/site/content/projects/rocket/meta.txt'' then
        Inr (''title: Rocket'' @ [CHR 0x0A] @ ''date: 2024-06-01'' @ [CHR 0x0A]
             @ ''tags: a, b ,, c'' @ delimiter @ ''A rocket.'' @ [CHR 0x0A])
      else if p = ''/site/content/news/launch/meta.txt'' then
        Inr (''title: Launch'' @ delimiter @ ''We launched.'')
      else if p = ''/site/content/team/ada/meta.txt'' then
        Inr (''name: Ada'' @ [CHR 0x0A] @ ''role: Team Leader'' @ delimiter @ ''Bio.'')
      else if p = ''/site/content/stats/stats.txt'' then
        Inr (''users: 42'' @ [CHR 0x0A] @ ''active: true'')
      else Inl ENOENT)"

definition siteHost :: host where
  \<comment> \<open>a small site: each collection has one item with a metadata document, one entry
      that is not a directory and one directory without \<^verbatim>\<open>meta.txt\<close>; of the cover
      candidates of the project only \<^verbatim>\<open>cover.jpg\<close> exists\<close>
  "siteHost =
     \<lparr> CONTENT = ''/site/content'', PUBLIC_DATA = ''/site/public/data'',
       readdir = siteListing,
       readFile = siteFiles,
       access = (\<lambda>p. if p = ''/site/content/projects/rocket/cover.jpg'' then Inr ()
                     else Inl ENOENT),
       mkdir = (\<lambda>p. Inr ()),
       writeFile = (\<lambda>p. Inr ()),
       localeCompare = (\<lambda>a b l. codeUnitCompare a b) \<rparr>"

definition alphabeticCompare :: "string \<Rightarrow> string \<Rightarrow> int" where
  \<comment> \<open>a collation that orders letters by the alphabet before it looks at their case,
      lower case first, as the default collation of Node (the CLDR root collation of
      ICU) does on ASCII letters: \<^verbatim>\<open>"alpha".localeCompare("Beta")\<close> is negative\<close>
  "alphabeticCompare a b =
     (let c = codeUnitCompare (toLowerCase a) (toLowerCase b) in
      if c \<noteq> 0 then c else codeUnitCompare b a)"

definition collatingHost :: host where
  \<comment> \<open>\<open>siteHost\<close> with that collation\<close>
  "collatingHost = siteHost \<lparr> localeCompare := (\<lambda>a b l. alphabeticCompare a b) \<rparr>"


definition exampleNews :: "string \<Rightarrow> string option \<Rightarrow> news" where
  \<comment> \<open>the record of a news item with the given slug and date and nothing else\<close>
  "exampleNews sl d =
     \<lparr> news.slug = sl, news.title = sl, news.date = d, news.author = ''Skylink'',
       news.cover = None, news.description = [],
       news.path = ''/content/news/'' @ sl @ ''/'' \<rparr>"


definition shelfListing :: "string \<Rightarrow> error + dirent list" where
  "shelfListing p =
     (if p = ''/site/content/projects'' then
        Inr [\<lparr> dirent.name = ''c'', dirent.kind = Directory \<rparr>,
             \<lparr> dirent.name = ''a'', dirent.kind = Directory \<rparr>,
             \<lparr> dirent.name = ''d'', dirent.kind = Directory \<rparr>,
             \<lparr> dirent.name = ''b'', dirent.kind = Directory \<rparr>]
      else if p = ''/site/content/team'' then
        Inr [\<lparr> dirent.name = ''tom'', dirent.kind = Directory \<rparr>,
             \<lparr> dirent.name = ''pia'', dirent.kind = Directory \<rparr>,
             \<lparr> dirent.name = ''mia'', dirent.kind = Directory \<rparr>,
             \<lparr> dirent.name = ''hal'', dirent.kind = Directory \<rparr>]
      else Inl ENOENT)"

definition shelfFiles :: "string \<Rightarrow> error + string" where
  "shelfFiles p =
     (if p = ''/site/content/projects/a/meta.txt'' then
        Inr (''title: A'' @ [CHR 0x0A] @ ''date: 2024-01-01'')
      else if p = ''/site/content/projects/b/meta.txt'' then
        Inr (''title: B'' @ [CHR 0x0A] @ ''date: 2024-06-01'')
      else if p = ''/site/content/projects/c/meta.txt'' then Inr ''title: Zeta''
      else if p = ''/site/content/projects/d/meta.txt'' then Inr ''title: Alfa''
      else if p = ''/site/content/team/tom/meta.txt'' then Inr ''role: Team Leader''
      else if p = ''/site/content/team/pia/meta.txt'' then Inr ''role: President''
      else if p = ''/site/content/team/mia/meta.txt'' then Inr ''role: Member''
      else if p = ''/site/content/team/hal/meta.txt'' then Inr ''role: Head of Logistics''
      else if p = ''/site/content/team/lea/meta.txt'' then Inr ''role: Project leader''
      else if p = ''/site/content/stats/stats.txt'' then
        Inr (''a: 1'' @ [CHR 0x0A] @ ''note'' @ [CHR 0x0A] @ ''c: 0x10'' @ [CHR 0x0A] @ ''a: two'')
      else Inl ENOENT)"

definition shelfHost :: host where
  \<comment> \<open>the four projects and the four team members of the examples, listed in an order
      that is not the sorted one; no covers, photos or galleries; a stats document with
      a line without a colon and a key that occurs twice\<close>
  "shelfHost =
     \<lparr> CONTENT = ''/site/content'', PUBLIC_DATA = ''/site/public/data'',
       readdir = shelfListing,
       readFile = shelfFiles,
       access = (\<lambda>p. Inl ENOENT),
       mkdir = (\<lambda>p. Inr ()),
       writeFile = (\<lambda>p. Inr ()),
       localeCompare = (\<lambda>a b l. codeUnitCompare a b) \<rparr>"

definition crewHost :: host where
  \<comment> \<open>\<open>shelfHost\<close> with a fifth team member, whose score is that of another\<close>
  "crewHost =
     shelfHost \<lparr> readdir := (\<lambda>p.
       if p = ''/site/content/team'' then
         Inr [\<lparr> dirent.name = ''tom'', dirent.kind = Directory \<rparr>,
              \<lparr> dirent.name = ''pia'', dirent.kind = Directory \<rparr>,
              \<lparr> dirent.name = ''mia'', dirent.kind = Directory \<rparr>,
              \<lparr> dirent.name = ''lea'', dirent.kind = Directory \<rparr>,
              \<lparr> dirent.name = ''hal'', dirent.kind = Directory \<rparr>]
       else shelfListing p) \<rparr>"

section \<open>Lemmas on the string functions and the parser\<close>

lemma consHead_not_Nil: "consHead c xs \<noteq> []"
  by (cases xs) simp_all

lemma splitSep_not_Nil: "splitSep sep s \<noteq> []"
  by (induction sep s rule: splitSep.induct) (simp_all add: consHead_not_Nil)

lemma isPrefix_iff: "isPrefix p s \<longleftrightarrow> take (length p) s = p"
  by (induction p s rule: isPrefix.induct) auto

lemma isPrefix_append: "isPrefix p (p @ t)"
  by (simp add: isPrefix_iff)

lemma includesStr_iff: "includesStr s key \<longleftrightarrow> (\<exists>u v. s = u @ key @ v)"
proof (induction s)
  case Nil
  then show ?case by auto
next
  case (Cons c cs)
  show ?case
  proof
    assume "includesStr (c # cs) key"
    then consider "isPrefix key (c # cs)" | "includesStr cs key" by auto
    then show "\<exists>u v. c # cs = u @ key @ v"
    proof cases
      case 1
      then have "c # cs = [] @ key @ drop (length key) (c # cs)"
        by (metis append_Nil append_take_drop_id isPrefix_iff)
      then show ?thesis by blast
    next
      case 2
      then obtain u v where "cs = u @ key @ v" using Cons.IH by blast
      then have "c # cs = (c # u) @ key @ v" by simp
      then show ?thesis by blast
    qed
  next
    assume "\<exists>u v. c # cs = u @ key @ v"
    then obtain u v where uv: "c # cs = u @ key @ v" by blast
    show "includesStr (c # cs) key"
    proof (cases u)
      case Nil
      then have "isPrefix key (c # cs)" using uv by (simp add: isPrefix_iff)
      then show ?thesis by simp
    next
      case (Cons a u')
      then have "cs = u' @ key @ v" using uv by simp
      then show ?thesis using Cons.IH by auto
    qed
  qed
qed

lemma splitSep_no_match: "\<not> includesStr s sep \<Longrightarrow> splitSep sep s = [s]"
  by (induction sep s rule: splitSep.induct) auto

lemma joinSep_Cons: "ps \<noteq> [] \<Longrightarrow> joinSep sep (p # ps) = p @ sep @ joinSep sep ps"
  by (cases ps) simp_all

lemma joinSep_Cons_if:
  "joinSep sep (p # ps) = (if ps = [] then p else p @ sep @ joinSep sep ps)"
  by (cases ps) simp_all

lemma joinSep_consHead: "ps \<noteq> [] \<Longrightarrow> joinSep sep (consHead c ps) = c # joinSep sep ps"
  by (cases ps) (simp_all add: joinSep_Cons_if)

lemma joinSep_splitSep: "joinSep sep (splitSep sep s) = s"
proof (induction sep s rule: splitSep.induct)
  case (1 sep)
  then show ?case by simp
next
  case (2 sep c cs)
  show ?case
  proof (cases "sep \<noteq> [] \<and> isPrefix sep (c # cs)")
    case True
    then have eq: "c # cs = sep @ drop (length sep) (c # cs)"
      by (metis append_take_drop_id isPrefix_iff)
    from True have "drop (length sep) (c # cs) = drop (length sep - 1) cs"
      by (cases sep) simp_all
    with eq have whole: "c # cs = sep @ drop (length sep - 1) cs" by simp
    have "splitSep sep (c # cs) = [] # splitSep sep (drop (length sep - 1) cs)"
      using True by simp
    then have "joinSep sep (splitSep sep (c # cs))
        = sep @ joinSep sep (splitSep sep (drop (length sep - 1) cs))"
      by (simp add: joinSep_Cons_if splitSep_not_Nil)
    also have "\<dots> = sep @ drop (length sep - 1) cs"
      using 2(1) True by simp
    finally show ?thesis using whole by simp
  next
    case False
    then have "splitSep sep (c # cs) = consHead c (splitSep sep cs)" by auto
    moreover have "joinSep sep (splitSep sep cs) = cs" using 2(2) False by blast
    ultimately show ?thesis
      by (simp only: joinSep_consHead [OF splitSep_not_Nil])
  qed
qed

lemma splitSep_first:
  "sep \<noteq> [] \<Longrightarrow> \<not> includesStr (h @ butlast sep) sep
   \<Longrightarrow> splitSep sep (h @ sep @ b) = h # splitSep sep b"
proof (induction h)
  case Nil
  then obtain c cs where sep: "sep = c # cs" by (cases sep) auto
  have "isPrefix sep (sep @ b)" by (rule isPrefix_append)
  then show ?case using sep by simp
next
  case (Cons x h)
  let ?short = "x # (h @ butlast sep)"
  let ?long = "x # (h @ sep @ b)"
  have "\<not> isPrefix sep ?short"
    using Cons.prems(2) by simp
  then have ne: "take (length sep) ?short \<noteq> sep"
    using isPrefix_iff by blast
  have "?long = ?short @ (last sep # b)"
    using Cons.prems(1) by simp
  moreover have "length sep \<le> length ?short" by simp
  ultimately have "take (length sep) ?long = take (length sep) ?short"
    by (metis append_Nil2 diff_is_0_eq take_0 take_append)
  with ne have np: "\<not> isPrefix sep ?long"
    using isPrefix_iff by metis
  have "\<not> includesStr (h @ butlast sep) sep" using Cons.prems(2) by simp
  then have "splitSep sep (h @ sep @ b) = h # splitSep sep b"
    using Cons.IH Cons.prems(1) by blast
  then show ?case using np by simp
qed

lemma parseMetaTxt_total: "\<exists>m. parseMetaTxt txt = Inr m"
  by (cases "splitSep delimiter txt") (simp_all add: parseMetaTxt_def splitSep_not_Nil Let_def)

lemma parseMetaTxt_no_delimiter:
  "\<not> includesStr txt delimiter \<Longrightarrow> parseMetaTxt txt = Inr ((parseHeader txt)(''description'' \<mapsto> []))"
  by (simp add: parseMetaTxt_def splitSep_no_match)

lemma parseMetaTxt_delimited:
  assumes "\<not> includesStr (h @ butlast delimiter) delimiter"
  shows "parseMetaTxt (h @ delimiter @ b) = Inr ((parseHeader h)(''description'' \<mapsto> trim b))"
proof -
  have "delimiter \<noteq> []" by (simp add: delimiter_def)
  then have "splitSep delimiter (h @ delimiter @ b) = h # splitSep delimiter b"
    using assms by (rule splitSep_first)
  then show ?thesis
    by (simp add: parseMetaTxt_def splitSep_not_Nil joinSep_splitSep)
qed

section \<open>Lemmas on the collectors\<close>

subsection \<open>The collectors' loop\<close>

lemma projectsLoop_itemsLoop:
  "projectsLoop h items out = itemsLoop (readFile h) (projectsBase h) (projectRecord h) items out"
  by (induction items arbitrary: out) (simp_all split: sum.splits)

lemma newsLoop_itemsLoop:
  "newsLoop h items out = itemsLoop (readFile h) (newsBase h) (newsRecord h) items out"
  by (induction items arbitrary: out) (simp_all split: sum.splits)

lemma teamLoop_itemsLoop:
  "teamLoop h items out = itemsLoop (readFile h) (teamBase h) (memberRecord h) items out"
  by (induction items arbitrary: out) (simp_all split: sum.splits)

lemma itemsLoop_not_directory:
  "\<not> isDirectory d \<Longrightarrow> itemsLoop rf base mk (d # items) out = itemsLoop rf base mk items out"
  by simp

lemma itemsLoop_unreadable:
  "rf (metaPath base (dirent.name d)) = Inl e
   \<Longrightarrow> itemsLoop rf base mk (d # items) out = itemsLoop rf base mk items out"
  by (simp add: metaPath_def)

lemma itemsLoop_append:
  "itemsLoop rf base mk (xs @ ys) out =
     (case itemsLoop rf base mk xs out of
        Inl e \<Rightarrow> Inl e
      | Inr out' \<Rightarrow> itemsLoop rf base mk ys out')"
  by (induction xs arbitrary: out) (simp_all split: sum.splits)

lemma itemsLoop_drop:
  assumes "itemsLoop rf base mk (d # ys) = itemsLoop rf base mk ys"
  shows "itemsLoop rf base mk (xs @ d # ys) out = itemsLoop rf base mk (xs @ ys) out"
  by (simp only: itemsLoop_append assms)

lemma itemsLoop_result:
  "\<exists>new. itemsLoop rf base mk items out = Inr (out @ new)
     \<and> (\<forall>r \<in> set new. \<exists>d \<in> set items. \<exists>txt meta.
           isDirectory d \<and> rf (metaPath base (dirent.name d)) = Inr txt
           \<and> parseMetaTxt txt = Inr meta \<and> r = mk (dirent.name d) meta)"
proof (induction items arbitrary: out)
  case Nil
  then show ?case by simp
next
  case (Cons d items)
  show ?case
  proof (cases "isDirectory d")
    case False
    then show ?thesis using Cons.IH [of out] by auto
  next
    case True
    show ?thesis
    proof (cases "rf (metaPath base (dirent.name d))")
      case (Inl e)
      then have "itemsLoop rf base mk (d # items) out = itemsLoop rf base mk items out"
        by (rule itemsLoop_unreadable)
      then show ?thesis using Cons.IH [of out] by auto
    next
      case (Inr mt)
      obtain meta where meta: "parseMetaTxt mt = Inr meta"
        using parseMetaTxt_total by blast
      let ?r = "mk (dirent.name d) meta"
      have step: "itemsLoop rf base mk (d # items) out = itemsLoop rf base mk items (out @ [?r])"
        using True Inr meta by (simp add: metaPath_def)
      obtain new where new: "itemsLoop rf base mk items (out @ [?r]) = Inr ((out @ [?r]) @ new)"
        and src: "\<forall>r \<in> set new. \<exists>d \<in> set items. \<exists>txt meta.
           isDirectory d \<and> rf (metaPath base (dirent.name d)) = Inr txt
           \<and> parseMetaTxt txt = Inr meta \<and> r = mk (dirent.name d) meta"
        using Cons.IH [of "out @ [?r]"] by blast
      have "itemsLoop rf base mk (d # items) out = Inr (out @ (?r # new))"
        using step new by simp
      moreover have "\<forall>r \<in> set (?r # new). \<exists>d' \<in> set (d # items). \<exists>txt meta.
           isDirectory d' \<and> rf (metaPath base (dirent.name d')) = Inr txt
           \<and> parseMetaTxt txt = Inr meta \<and> r = mk (dirent.name d') meta"
        using src True Inr meta by auto
      ultimately show ?thesis by blast
    qed
  qed
qed

subsection \<open>Asset resolution\<close>

lemma resolveAsset_find:
  "resolveAsset h dir pub cs =
     (case find (\<lambda>c. existsProbe h (pathJoin dir c)) cs of
        None \<Rightarrow> None
      | Some c \<Rightarrow> Some (pub @ c))"
  by (induction cs) (simp_all add: existsProbe_def split: sum.splits)

lemma resolveAsset_None:
  "resolveAsset h dir pub cs = None \<longleftrightarrow> (\<forall>c \<in> set cs. \<not> existsProbe h (pathJoin dir c))"
  by (induction cs) (simp_all add: existsProbe_def split: sum.splits)

lemma resolveAsset_Some:
  "resolveAsset h dir pub cs = Some p \<longleftrightarrow>
     (\<exists>i < length cs. p = pub @ cs ! i \<and> existsProbe h (pathJoin dir (cs ! i))
        \<and> (\<forall>j < i. \<not> existsProbe h (pathJoin dir (cs ! j))))"
proof (induction cs)
  case Nil
  then show ?case by simp
next
  case (Cons c cs)
  show ?case
  proof (cases "existsProbe h (pathJoin dir c)")
    case True
    then have res: "resolveAsset h dir pub (c # cs) = Some (pub @ c)"
      by (simp add: existsProbe_def split: sum.splits)
    show ?thesis
    proof
      assume "resolveAsset h dir pub (c # cs) = Some p"
      then have "p = pub @ c" using res by simp
      then show "\<exists>i < length (c # cs). p = pub @ (c # cs) ! i
          \<and> existsProbe h (pathJoin dir ((c # cs) ! i))
          \<and> (\<forall>j < i. \<not> existsProbe h (pathJoin dir ((c # cs) ! j)))"
        using True by (intro exI [of _ 0]) simp
    next
      assume "\<exists>i < length (c # cs). p = pub @ (c # cs) ! i
          \<and> existsProbe h (pathJoin dir ((c # cs) ! i))
          \<and> (\<forall>j < i. \<not> existsProbe h (pathJoin dir ((c # cs) ! j)))"
      then obtain i where i: "p = pub @ (c # cs) ! i"
        and first: "\<forall>j < i. \<not> existsProbe h (pathJoin dir ((c # cs) ! j))" by blast
      have "i = 0"
      proof (rule ccontr)
        assume "i \<noteq> 0"
        then have "\<not> existsProbe h (pathJoin dir ((c # cs) ! 0))" using first by blast
        then show False using True by simp
      qed
      then show "resolveAsset h dir pub (c # cs) = Some p" using i res by simp
    qed
  next
    case False
    then have res: "resolveAsset h dir pub (c # cs) = resolveAsset h dir pub cs"
      by (simp add: existsProbe_def split: sum.splits)
    show ?thesis
    proof
      assume "resolveAsset h dir pub (c # cs) = Some p"
      then obtain i where "i < length cs" "p = pub @ cs ! i"
        "existsProbe h (pathJoin dir (cs ! i))"
        "\<forall>j < i. \<not> existsProbe h (pathJoin dir (cs ! j))"
        using res Cons.IH by auto
      then show "\<exists>i < length (c # cs). p = pub @ (c # cs) ! i
          \<and> existsProbe h (pathJoin dir ((c # cs) ! i))
          \<and> (\<forall>j < i. \<not> existsProbe h (pathJoin dir ((c # cs) ! j)))"
        using False by (intro exI [of _ "Suc i"]) (auto simp: less_Suc_eq_0_disj)
    next
      assume "\<exists>i < length (c # cs). p = pub @ (c # cs) ! i
          \<and> existsProbe h (pathJoin dir ((c # cs) ! i))
          \<and> (\<forall>j < i. \<not> existsProbe h (pathJoin dir ((c # cs) ! j)))"
      then obtain i where i: "i < length (c # cs)" "p = pub @ (c # cs) ! i"
        "existsProbe h (pathJoin dir ((c # cs) ! i))"
        and first: "\<forall>j < i. \<not> existsProbe h (pathJoin dir ((c # cs) ! j))" by blast
      from i False obtain k where k: "i = Suc k" by (cases i) auto
      have "\<forall>j < k. \<not> existsProbe h (pathJoin dir (cs ! j))"
      proof (intro allI impI)
        fix j assume "j < k"
        then have "Suc j < i" using k by simp
        then have "\<not> existsProbe h (pathJoin dir ((c # cs) ! Suc j))" using first by blast
        then show "\<not> existsProbe h (pathJoin dir (cs ! j))" by simp
      qed
      then have "resolveAsset h dir pub cs = Some p"
        using Cons.IH i k by auto
      then show "resolveAsset h dir pub (c # cs) = Some p" using res by simp
    qed
  qed
qed

subsection \<open>Sorting\<close>

lemma set_insertBy: "set (insertBy cmp x xs) = insert x (set xs)"
  by (induction xs) auto

lemma set_sortBy: "set (sortBy cmp xs) = set xs"
  by (induction xs) (simp_all add: set_insertBy)

lemma length_insertBy: "length (insertBy cmp x xs) = Suc (length xs)"
  by (induction xs) auto

lemma length_sortBy: "length (sortBy cmp xs) = length xs"
  by (induction xs) (simp_all add: length_insertBy)


lemma collectProjects_total: "\<exists>res. collectProjects h = Inr res"
proof -
  obtain new where "projectsLoop h (readDirIfExists h (projectsBase h)) [] = Inr ([] @ new)"
    using itemsLoop_result [of "readFile h" "projectsBase h" "projectRecord h" _ "[]"]
    unfolding projectsLoop_itemsLoop by blast
  then show ?thesis by (simp add: collectProjects_def)
qed

lemma collectNews_total: "\<exists>res. collectNews h = Inr res"
proof -
  obtain new where "newsLoop h (readDirIfExists h (newsBase h)) [] = Inr ([] @ new)"
    using itemsLoop_result [of "readFile h" "newsBase h" "newsRecord h" _ "[]"]
    unfolding newsLoop_itemsLoop by blast
  then show ?thesis by (simp add: collectNews_def)
qed

lemma collectTeam_total: "\<exists>res. collectTeam h = Inr res"
proof -
  obtain new where "teamLoop h (readDirIfExists h (teamBase h)) [] = Inr ([] @ new)"
    using itemsLoop_result [of "readFile h" "teamBase h" "memberRecord h" _ "[]"]
    unfolding teamLoop_itemsLoop by blast
  then show ?thesis by (simp add: collectTeam_def)
qed

lemma collect_sources:
  assumes "itemsLoop rf base mk items [] = Inr out" and "r \<in> set (sortBy cmp out)"
  shows "\<exists>d \<in> set items. \<exists>mt meta. isDirectory d
     \<and> rf (metaPath base (dirent.name d)) = Inr mt \<and> parseMetaTxt mt = Inr meta
     \<and> r = mk (dirent.name d) meta"
proof -
  obtain new where "itemsLoop rf base mk items [] = Inr ([] @ new)"
    and src: "\<forall>r \<in> set new. \<exists>d \<in> set items. \<exists>mt meta.
           isDirectory d \<and> rf (metaPath base (dirent.name d)) = Inr mt
           \<and> parseMetaTxt mt = Inr meta \<and> r = mk (dirent.name d) meta"
    using itemsLoop_result [of rf base mk items "[]"] by blast
  then have "new = out" using assms(1) by simp
  moreover have "r \<in> set out" using assms(2) by (simp add: set_sortBy)
  ultimately show ?thesis using src by blast
qed

lemma collectProjects_sources:
  assumes "collectProjects h = Inr out" and "r \<in> set out"
  shows "\<exists>d \<in> set (readDirIfExists h (projectsBase h)). \<exists>mt meta. isDirectory d
     \<and> readFile h (metaPath (projectsBase h) (dirent.name d)) = Inr mt
     \<and> parseMetaTxt mt = Inr meta \<and> r = projectRecord h (dirent.name d) meta"
proof -
  obtain raw where raw: "projectsLoop h (readDirIfExists h (projectsBase h)) [] = Inr raw"
    and out: "out = sortBy (projectsCompare h) raw"
    using assms(1) by (auto simp: collectProjects_def split: sum.splits)
  show ?thesis
    using collect_sources [OF raw [unfolded projectsLoop_itemsLoop], of r "projectsCompare h"]
      assms(2) out by simp
qed

lemma collectNews_sources:
  assumes "collectNews h = Inr out" and "r \<in> set out"
  shows "\<exists>d \<in> set (readDirIfExists h (newsBase h)). \<exists>mt meta. isDirectory d
     \<and> readFile h (metaPath (newsBase h) (dirent.name d)) = Inr mt
     \<and> parseMetaTxt mt = Inr meta \<and> r = newsRecord h (dirent.name d) meta"
proof -
  obtain raw where raw: "newsLoop h (readDirIfExists h (newsBase h)) [] = Inr raw"
    and out: "out = sortBy (newsCompare h) raw"
    using assms(1) by (auto simp: collectNews_def split: sum.splits)
  show ?thesis
    using collect_sources [OF raw [unfolded newsLoop_itemsLoop], of r "newsCompare h"]
      assms(2) out by simp
qed

lemma collectTeam_sources:
  assumes "collectTeam h = Inr out" and "r \<in> set out"
  shows "\<exists>d \<in> set (readDirIfExists h (teamBase h)). \<exists>mt meta. isDirectory d
     \<and> readFile h (metaPath (teamBase h) (dirent.name d)) = Inr mt
     \<and> parseMetaTxt mt = Inr meta \<and> r = memberRecord h (dirent.name d) meta"
proof -
  obtain raw where raw: "teamLoop h (readDirIfExists h (teamBase h)) [] = Inr raw"
    and out: "out = sortBy (teamCompare h) raw"
    using assms(1) by (auto simp: collectTeam_def split: sum.splits)
  show ?thesis
    using collect_sources [OF raw [unfolded teamLoop_itemsLoop], of r "teamCompare h"]
      assms(2) out by simp
qed

lemma slug_projectRecord: "project.slug (projectRecord h n meta) = n"
  by (simp add: projectRecord_def)

lemma slug_newsRecord: "news.slug (newsRecord h n meta) = n"
  by (simp add: newsRecord_def)

lemma slug_memberRecord: "member.slug (memberRecord h n meta) = n"
  by (simp add: memberRecord_def)

lemma siteHost_projects:
  "collectProjects siteHost =
     Inr [\<lparr> project.slug = ''rocket'', title = ''Rocket'', date = Some ''2024-06-01'',
            tags = [''a'', ''b'', ''c''], status = ''active'', links = None,
            cover = Some ''/content/projects/rocket/cover.jpg'',
            gallery = [''/content/projects/rocket/gallery/a.png''],
            description = ''A rocket.'', path = ''/content/projects/rocket/'' \<rparr>]"
  by code_simp

lemma siteHost_news:
  "collectNews siteHost =
     Inr [\<lparr> news.slug = ''launch'', title = ''Launch'', date = None, author = ''Skylink'',
            cover = None, description = ''We launched.'', path = ''/content/news/launch/'' \<rparr>]"
  by code_simp

lemma siteHost_team:
  "collectTeam siteHost =
     Inr [\<lparr> member.slug = ''ada'', name = ''Ada'', role = ''Team Leader'', email = [],
            links = [], photo = None, bio = ''Bio.'' \<rparr>]"
  by code_simp

lemma readDirIfExists_failure: "readdir h dir = Inl e \<Longrightarrow> readDirIfExists h dir = []"
  by (simp add: readDirIfExists_def)

section \<open>The claims\<close>

text \<open>
  \<^bold>\<open>Claim C7.\<close> For every host, directory, public prefix and ordered candidate list,
  asset resolution returns none exactly when no candidate exists, and otherwise the
  public path of the candidate at the least index whose file exists (a file exists when
  \<^verbatim>\<open>fs.access\<close> on it succeeds). With the candidates \<^verbatim>\<open>cover.png\<close>, \<^verbatim>\<open>cover.jpg\<close> and only
  \<^verbatim>\<open>cover.jpg\<close> present the result is the path of \<^verbatim>\<open>cover.jpg\<close>. The cover of a project
  and of a news item and the photo of a team member are resolved this way over their
  four candidates.
\<close>

theorem resolveAsset_first_existing:
  "(resolveAsset h dir pub cs = None \<longleftrightarrow> (\<forall>c \<in> set cs. \<not> existsProbe h (pathJoin dir c)))
   \<and> (\<forall>p. resolveAsset h dir pub cs = Some p \<longleftrightarrow>
          (\<exists>i < length cs. p = pub @ cs ! i \<and> existsProbe h (pathJoin dir (cs ! i))
             \<and> (\<forall>j < i. \<not> existsProbe h (pathJoin dir (cs ! j)))))
   \<and> (\<not> existsProbe h (pathJoin dir ''cover.png'') \<and> existsProbe h (pathJoin dir ''cover.jpg'')
        \<longrightarrow> resolveAsset h dir pub [''cover.png'', ''cover.jpg''] = Some (pub @ ''cover.jpg''))
   \<and> project.cover (projectRecord h sl meta) =
        resolveAsset h (pathJoin (projectsBase h) sl) (''/content/projects/'' @ sl @ ''/'')
          coverCandidates
   \<and> news.cover (newsRecord h sl meta) =
        resolveAsset h (pathJoin (newsBase h) sl) (''/content/news/'' @ sl @ ''/'')
          coverCandidates
   \<and> member.photo (memberRecord h sl meta) =
        resolveAsset h (pathJoin (teamBase h) sl) (''/content/team/'' @ sl @ ''/'')
          photoCandidates"
proof (intro conjI allI)
  show "resolveAsset h dir pub cs = None \<longleftrightarrow> (\<forall>c \<in> set cs. \<not> existsProbe h (pathJoin dir c))"
    by (rule resolveAsset_None)
  show "resolveAsset h dir pub cs = Some p \<longleftrightarrow>
          (\<exists>i < length cs. p = pub @ cs ! i \<and> existsProbe h (pathJoin dir (cs ! i))
             \<and> (\<forall>j < i. \<not> existsProbe h (pathJoin dir (cs ! j))))" for p
    by (rule resolveAsset_Some)
  show "\<not> existsProbe h (pathJoin dir ''cover.png'') \<and> existsProbe h (pathJoin dir ''cover.jpg'')
        \<longrightarrow> resolveAsset h dir pub [''cover.png'', ''cover.jpg''] = Some (pub @ ''cover.jpg'')"
    by (simp add: resolveAsset_find)
qed (simp_all add: projectRecord_def newsRecord_def memberRecord_def)

theorem resolveAsset_first_existing_witness:
  "\<not> existsProbe siteHost (pathJoin ''/site/content/projects/rocket'' ''cover.png'')
   \<and> existsProbe siteHost (pathJoin ''/site/content/projects/rocket'' ''cover.jpg'')
   \<and> resolveAsset siteHost ''/site/content/projects/rocket'' ''/content/projects/rocket/''
        [''cover.png'', ''cover.jpg''] = Some ''/content/projects/rocket/cover.jpg''"
proof -
  have no_png: "\<not> existsProbe siteHost (pathJoin ''/site/content/projects/rocket'' ''cover.png'')"
    by (simp add: existsProbe_def siteHost_def pathJoin_def)
  have jpg: "existsProbe siteHost (pathJoin ''/site/content/projects/rocket'' ''cover.jpg'')"
    by (simp add: existsProbe_def siteHost_def pathJoin_def)
  have "resolveAsset siteHost ''/site/content/projects/rocket'' ''/content/projects/rocket/''
        [''cover.png'', ''cover.jpg''] = Some (''/content/projects/rocket/'' @ ''cover.jpg'')"
    using resolveAsset_first_existing [of siteHost "''/site/content/projects/rocket''"
        "''/content/projects/rocket/''"] no_png jpg by blast
  then show ?thesis using no_png jpg by simp
qed

text \<open>
  \<^bold>\<open>Claim C10.\<close> For every host and each of the three collections, every record of the
  output has the name of a directory entry of the collection root as its slug, and an
  entry that is not a directory (a regular file, a symbolic link, ...) changes nothing:
  the loop over a listing that holds it returns what it returns without it, whatever the
  entry holds.
\<close>

theorem records_from_directories:
  "(\<forall>out. collectProjects h = Inr out \<longrightarrow>
      (\<forall>r \<in> set out. \<exists>d \<in> set (readDirIfExists h (projectsBase h)).
         isDirectory d \<and> dirent.name d = project.slug r))
   \<and> (\<forall>out. collectNews h = Inr out \<longrightarrow>
      (\<forall>r \<in> set out. \<exists>d \<in> set (readDirIfExists h (newsBase h)).
         isDirectory d \<and> dirent.name d = news.slug r))
   \<and> (\<forall>out. collectTeam h = Inr out \<longrightarrow>
      (\<forall>r \<in> set out. \<exists>d \<in> set (readDirIfExists h (teamBase h)).
         isDirectory d \<and> dirent.name d = member.slug r))
   \<and> (\<not> isDirectory d \<longrightarrow>
        projectsLoop h (xs @ d # ys) acc1 = projectsLoop h (xs @ ys) acc1
        \<and> newsLoop h (xs @ d # ys) acc2 = newsLoop h (xs @ ys) acc2
        \<and> teamLoop h (xs @ d # ys) acc3 = teamLoop h (xs @ ys) acc3)"
proof (intro conjI allI impI ballI)
  fix out r assume "collectProjects h = Inr out" "r \<in> set out"
  from collectProjects_sources [OF this]
  show "\<exists>d \<in> set (readDirIfExists h (projectsBase h)). isDirectory d \<and> dirent.name d = project.slug r"
    using slug_projectRecord by fastforce
next
  fix out r assume "collectNews h = Inr out" "r \<in> set out"
  from collectNews_sources [OF this]
  show "\<exists>d \<in> set (readDirIfExists h (newsBase h)). isDirectory d \<and> dirent.name d = news.slug r"
    using slug_newsRecord by fastforce
next
  fix out r assume "collectTeam h = Inr out" "r \<in> set out"
  from collectTeam_sources [OF this]
  show "\<exists>d \<in> set (readDirIfExists h (teamBase h)). isDirectory d \<and> dirent.name d = member.slug r"
    using slug_memberRecord by fastforce
next
  assume nd: "\<not> isDirectory d"
  show "projectsLoop h (xs @ d # ys) acc1 = projectsLoop h (xs @ ys) acc1"
    unfolding projectsLoop_itemsLoop
    by (rule itemsLoop_drop) (simp add: nd fun_eq_iff)
  show "newsLoop h (xs @ d # ys) acc2 = newsLoop h (xs @ ys) acc2"
    unfolding newsLoop_itemsLoop
    by (rule itemsLoop_drop) (simp add: nd fun_eq_iff)
  show "teamLoop h (xs @ d # ys) acc3 = teamLoop h (xs @ ys) acc3"
    unfolding teamLoop_itemsLoop
    by (rule itemsLoop_drop) (simp add: nd fun_eq_iff)
qed


theorem records_from_directories_witness:
  "\<not> isDirectory \<lparr> dirent.name = ''notes.txt'', dirent.kind = File \<rparr>
   \<and> projectsLoop siteHost
         ([\<lparr> dirent.name = ''rocket'', dirent.kind = Directory \<rparr>]
          @ \<lparr> dirent.name = ''notes.txt'', dirent.kind = File \<rparr>
          # [\<lparr> dirent.name = ''draft'', dirent.kind = Directory \<rparr>]) []
       = projectsLoop siteHost
         ([\<lparr> dirent.name = ''rocket'', dirent.kind = Directory \<rparr>]
          @ [\<lparr> dirent.name = ''draft'', dirent.kind = Directory \<rparr>]) []
   \<and> (\<exists>out r. collectProjects siteHost = Inr out \<and> r \<in> set out \<and> project.slug r = ''rocket''
        \<and> (\<exists>d \<in> set (readDirIfExists siteHost (projectsBase siteHost)).
              isDirectory d \<and> dirent.name d = project.slug r))
   \<and> (\<exists>out r. collectNews siteHost = Inr out \<and> r \<in> set out \<and> news.slug r = ''launch''
        \<and> (\<exists>d \<in> set (readDirIfExists siteHost (newsBase siteHost)).
              isDirectory d \<and> dirent.name d = news.slug r))
   \<and> (\<exists>out r. collectTeam siteHost = Inr out \<and> r \<in> set out \<and> member.slug r = ''ada''
        \<and> (\<exists>d \<in> set (readDirIfExists siteHost (teamBase siteHost)).
              isDirectory d \<and> dirent.name d = member.slug r))"
proof -
  note inst = records_from_directories [of siteHost
      "\<lparr> dirent.name = ''notes.txt'', dirent.kind = File \<rparr>"
      "[\<lparr> dirent.name = ''rocket'', dirent.kind = Directory \<rparr>]"
      "[\<lparr> dirent.name = ''draft'', dirent.kind = Directory \<rparr>]" "[]" "[]" "[]"]
  have nd: "\<not> isDirectory \<lparr> dirent.name = ''notes.txt'', dirent.kind = File \<rparr>"
    by (simp add: isDirectory_def)
  have p: "\<exists>out r. collectProjects siteHost = Inr out \<and> r \<in> set out \<and> project.slug r = ''rocket''"
    by (simp add: siteHost_projects)
  have n: "\<exists>out r. collectNews siteHost = Inr out \<and> r \<in> set out \<and> news.slug r = ''launch''"
    by (simp add: siteHost_news)
  have t: "\<exists>out r. collectTeam siteHost = Inr out \<and> r \<in> set out \<and> member.slug r = ''ada''"
    by (simp add: siteHost_team)
  from inst nd have "projectsLoop siteHost
         ([\<lparr> dirent.name = ''rocket'', dirent.kind = Directory \<rparr>]
          @ \<lparr> dirent.name = ''notes.txt'', dirent.kind = File \<rparr>
          # [\<lparr> dirent.name = ''draft'', dirent.kind = Directory \<rparr>]) []
       = projectsLoop siteHost
         ([\<lparr> dirent.name = ''rocket'', dirent.kind = Directory \<rparr>]
          @ [\<lparr> dirent.name = ''draft'', dirent.kind = Directory \<rparr>]) []"
    by blast
  moreover from inst p have "\<exists>out r. collectProjects siteHost = Inr out \<and> r \<in> set out
        \<and> project.slug r = ''rocket''
        \<and> (\<exists>d \<in> set (readDirIfExists siteHost (projectsBase siteHost)).
              isDirectory d \<and> dirent.name d = project.slug r)"
    by blast
  moreover from inst n have "\<exists>out r. collectNews siteHost = Inr out \<and> r \<in> set out
        \<and> news.slug r = ''launch''
        \<and> (\<exists>d \<in> set (readDirIfExists siteHost (newsBase siteHost)).
              isDirectory d \<and> dirent.name d = news.slug r)"
    by blast
  moreover from inst t have "\<exists>out r. collectTeam siteHost = Inr out \<and> r \<in> set out
        \<and> member.slug r = ''ada''
        \<and> (\<exists>d \<in> set (readDirIfExists siteHost (teamBase siteHost)).
              isDirectory d \<and> dirent.name d = member.slug r)"
    by blast
  ultimately show ?thesis using nd by blast
qed

text \<open>
  \<^bold>\<open>Claim C8.\<close> For every host and each of the three collections, when \<^verbatim>\<open>meta.txt\<close> of the
  item \<open>n\<close> cannot be read (for whatever reason), the loop over a listing that holds the
  entry \<open>n\<close> returns what it returns without that entry, so the entries before and after
  it are processed as if it were absent; the collector returns an array (it does not
  throw), and no record of the array has the slug \<open>n\<close>.
\<close>

theorem missing_meta_skipped:
  "(readFile h (metaPath (projectsBase h) n) = Inl e \<longrightarrow>
      (dirent.name d = n \<longrightarrow> projectsLoop h (xs @ d # ys) acc1 = projectsLoop h (xs @ ys) acc1)
      \<and> (\<exists>out. collectProjects h = Inr out \<and> (\<forall>r \<in> set out. project.slug r \<noteq> n)))
   \<and> (readFile h (metaPath (newsBase h) n) = Inl e \<longrightarrow>
      (dirent.name d = n \<longrightarrow> newsLoop h (xs @ d # ys) acc2 = newsLoop h (xs @ ys) acc2)
      \<and> (\<exists>out. collectNews h = Inr out \<and> (\<forall>r \<in> set out. news.slug r \<noteq> n)))
   \<and> (readFile h (metaPath (teamBase h) n) = Inl e \<longrightarrow>
      (dirent.name d = n \<longrightarrow> teamLoop h (xs @ d # ys) acc3 = teamLoop h (xs @ ys) acc3)
      \<and> (\<exists>out. collectTeam h = Inr out \<and> (\<forall>r \<in> set out. member.slug r \<noteq> n)))"
proof (intro conjI impI)
  assume miss: "readFile h (metaPath (projectsBase h) n) = Inl e"
  show "projectsLoop h (xs @ d # ys) acc1 = projectsLoop h (xs @ ys) acc1" if "dirent.name d = n"
    unfolding projectsLoop_itemsLoop
    using miss that by (intro itemsLoop_drop) (simp add: fun_eq_iff metaPath_def)
  obtain out where out: "collectProjects h = Inr out" using collectProjects_total by blast
  have "project.slug r \<noteq> n" if "r \<in> set out" for r
    using collectProjects_sources [OF out that] miss slug_projectRecord by fastforce
  then show "\<exists>out. collectProjects h = Inr out \<and> (\<forall>r \<in> set out. project.slug r \<noteq> n)"
    using out by blast
next
  assume miss: "readFile h (metaPath (newsBase h) n) = Inl e"
  show "newsLoop h (xs @ d # ys) acc2 = newsLoop h (xs @ ys) acc2" if "dirent.name d = n"
    unfolding newsLoop_itemsLoop
    using miss that by (intro itemsLoop_drop) (simp add: fun_eq_iff metaPath_def)
  obtain out where out: "collectNews h = Inr out" using collectNews_total by blast
  have "news.slug r \<noteq> n" if "r \<in> set out" for r
    using collectNews_sources [OF out that] miss slug_newsRecord by fastforce
  then show "\<exists>out. collectNews h = Inr out \<and> (\<forall>r \<in> set out. news.slug r \<noteq> n)"
    using out by blast
next
  assume miss: "readFile h (metaPath (teamBase h) n) = Inl e"
  show "teamLoop h (xs @ d # ys) acc3 = teamLoop h (xs @ ys) acc3" if "dirent.name d = n"
    unfolding teamLoop_itemsLoop
    using miss that by (intro itemsLoop_drop) (simp add: fun_eq_iff metaPath_def)
  obtain out where out: "collectTeam h = Inr out" using collectTeam_total by blast
  have "member.slug r \<noteq> n" if "r \<in> set out" for r
    using collectTeam_sources [OF out that] miss slug_memberRecord by fastforce
  then show "\<exists>out. collectTeam h = Inr out \<and> (\<forall>r \<in> set out. member.slug r \<noteq> n)"
    using out by blast
qed


theorem missing_meta_skipped_witness:
  "readFile siteHost (metaPath (projectsBase siteHost) ''draft'') = Inl ENOENT
   \<and> projectsLoop siteHost
         ([\<lparr> dirent.name = ''rocket'', dirent.kind = Directory \<rparr>]
          @ \<lparr> dirent.name = ''draft'', dirent.kind = Directory \<rparr> # []) []
       = projectsLoop siteHost
         ([\<lparr> dirent.name = ''rocket'', dirent.kind = Directory \<rparr>] @ []) []
   \<and> (\<exists>out. collectProjects siteHost = Inr out \<and> (\<forall>r \<in> set out. project.slug r \<noteq> ''draft''))
   \<and> readFile siteHost (metaPath (newsBase siteHost) ''empty'') = Inl ENOENT
   \<and> (\<exists>out. collectNews siteHost = Inr out \<and> (\<forall>r \<in> set out. news.slug r \<noteq> ''empty''))
   \<and> readFile siteHost (metaPath (teamBase siteHost) ''ghost'') = Inl ENOENT
   \<and> (\<exists>out. collectTeam siteHost = Inr out \<and> (\<forall>r \<in> set out. member.slug r \<noteq> ''ghost''))"
proof -
  have p: "readFile siteHost (metaPath (projectsBase siteHost) ''draft'') = Inl ENOENT"
    by (simp add: siteHost_def siteFiles_def metaPath_def projectsBase_def pathJoin_def)
  have n: "readFile siteHost (metaPath (newsBase siteHost) ''empty'') = Inl ENOENT"
    by (simp add: siteHost_def siteFiles_def metaPath_def newsBase_def pathJoin_def)
  have t: "readFile siteHost (metaPath (teamBase siteHost) ''ghost'') = Inl ENOENT"
    by (simp add: siteHost_def siteFiles_def metaPath_def teamBase_def pathJoin_def)
  have "projectsLoop siteHost
         ([\<lparr> dirent.name = ''rocket'', dirent.kind = Directory \<rparr>]
          @ \<lparr> dirent.name = ''draft'', dirent.kind = Directory \<rparr> # []) []
       = projectsLoop siteHost
         ([\<lparr> dirent.name = ''rocket'', dirent.kind = Directory \<rparr>] @ []) []"
    using missing_meta_skipped [of siteHost "''draft''" ENOENT
        "\<lparr> dirent.name = ''draft'', dirent.kind = Directory \<rparr>"
        "[\<lparr> dirent.name = ''rocket'', dirent.kind = Directory \<rparr>]" "[]" "[]",
        THEN conjunct1, rule_format, OF p, THEN conjunct1]
    by simp
  moreover have "\<exists>out. collectProjects siteHost = Inr out \<and> (\<forall>r \<in> set out. project.slug r \<noteq> ''draft'')"
    using missing_meta_skipped [of siteHost "''draft''" ENOENT, THEN conjunct1, rule_format, OF p,
        THEN conjunct2] .
  moreover have "\<exists>out. collectNews siteHost = Inr out \<and> (\<forall>r \<in> set out. news.slug r \<noteq> ''empty'')"
    using missing_meta_skipped [of siteHost "''empty''" ENOENT, THEN conjunct2, THEN conjunct1, rule_format, OF n,
        THEN conjunct2] .
  moreover have "\<exists>out. collectTeam siteHost = Inr out \<and> (\<forall>r \<in> set out. member.slug r \<noteq> ''ghost'')"
    using missing_meta_skipped [of siteHost "''ghost''" ENOENT, THEN conjunct2, THEN conjunct2, rule_format, OF t,
        THEN conjunct2] .
  ultimately show ?thesis using p n t by blast
qed

text \<open>
  \<^bold>\<open>Claim C1.\<close> The claim says that a listing of a collection root that fails for a
  reason other than absence aborts the run. \<^verbatim>\<open>readDirIfExists\<close> catches every exception
  of \<^verbatim>\<open>fs.readdir\<close> and returns the empty array, so on the host \<open>deniedHost\<close>, where
  every listing fails with \<^verbatim>\<open>EACCES\<close>, the run completes and writes three empty
  collections.
\<close>

theorem listing_denied_run_completes:
  "readdir deniedHost (projectsBase deniedHost) = Inl EACCES
   \<and> readdir deniedHost (newsBase deniedHost) = Inl EACCES
   \<and> readdir deniedHost (teamBase deniedHost) = Inl EACCES
   \<and> main deniedHost =
       Inr \<lparr> projects_json = [], news_json = [], team_json = [], stats_json = Map.empty \<rparr>"
  by (simp add: main_def deniedHost_def collectProjects_def collectNews_def collectTeam_def
      collectStats_def readDirIfExists_def)

text \<open>
  \<^bold>\<open>Claim C1, as amended.\<close> For every host, a collection root whose listing fails for
  any reason (absence, permission denied, ...) is read as a root with no entries: the
  collector returns the empty array. The run aborts only when creating the output
  directory or writing one of the output files fails, never because of a listing.
\<close>

theorem listing_failure_contained:
  "(readdir h (projectsBase h) = Inl e \<longrightarrow> collectProjects h = Inr [])
   \<and> (readdir h (newsBase h) = Inl e \<longrightarrow> collectNews h = Inr [])
   \<and> (readdir h (teamBase h) = Inl e \<longrightarrow> collectTeam h = Inr [])
   \<and> (main h = Inl e' \<longrightarrow>
        mkdir h (PUBLIC_DATA h) = Inl e'
        \<or> (\<exists>f. writeFile h (pathJoin (PUBLIC_DATA h) f) = Inl e'))"
proof (intro conjI impI)
  assume "readdir h (projectsBase h) = Inl e"
  then show "collectProjects h = Inr []"
    by (simp add: collectProjects_def readDirIfExists_failure)
next
  assume "readdir h (newsBase h) = Inl e"
  then show "collectNews h = Inr []"
    by (simp add: collectNews_def readDirIfExists_failure)
next
  assume "readdir h (teamBase h) = Inl e"
  then show "collectTeam h = Inr []"
    by (simp add: collectTeam_def readDirIfExists_failure)
next
  assume fatal: "main h = Inl e'"
  obtain ps ns ts where c: "collectProjects h = Inr ps" "collectNews h = Inr ns"
      "collectTeam h = Inr ts"
    using collectProjects_total collectNews_total collectTeam_total by blast
  show "mkdir h (PUBLIC_DATA h) = Inl e'
        \<or> (\<exists>f. writeFile h (pathJoin (PUBLIC_DATA h) f) = Inl e')"
    using fatal c by (auto simp: main_def split: sum.splits)
qed

theorem listing_failure_contained_witness:
  "readdir deniedHost (projectsBase deniedHost) = Inl EACCES
   \<and> collectProjects deniedHost = Inr []
   \<and> readdir deniedHost (newsBase deniedHost) = Inl EACCES
   \<and> collectNews deniedHost = Inr []
   \<and> readdir deniedHost (teamBase deniedHost) = Inl EACCES
   \<and> collectTeam deniedHost = Inr []
   \<and> (\<forall>e. main deniedHost \<noteq> Inl e)"
proof -
  have l: "readdir deniedHost (projectsBase deniedHost) = Inl EACCES"
    "readdir deniedHost (newsBase deniedHost) = Inl EACCES"
    "readdir deniedHost (teamBase deniedHost) = Inl EACCES"
    by (simp_all add: deniedHost_def)
  have w: "mkdir deniedHost p = Inr ()" "writeFile deniedHost p = Inr ()" for p
    by (simp_all add: deniedHost_def)
  have "main deniedHost \<noteq> Inl e" for e
    using listing_failure_contained [of deniedHost EACCES e] w by auto
  then show ?thesis
    using listing_failure_contained [of deniedHost EACCES] l by blast
qed

subsection \<open>Header lines\<close>

lemma dropWhile_all_iff: "(\<forall>x \<in> set (dropWhile P s). P x) \<longleftrightarrow> dropWhile P s = []"
proof
  assume all: "\<forall>x \<in> set (dropWhile P s). P x"
  show "dropWhile P s = []"
  proof (rule ccontr)
    assume ne: "dropWhile P s \<noteq> []"
    then have "\<not> P (hd (dropWhile P s))" by (rule hd_dropWhile)
    moreover have "hd (dropWhile P s) \<in> set (dropWhile P s)" using ne by simp
    ultimately show False using all by blast
  qed
next
  assume e: "dropWhile P s = []"
  show "\<forall>x \<in> set (dropWhile P s). P x" unfolding e by simp
qed

lemma trim_Nil_iff: "trim s = [] \<longleftrightarrow> (\<forall>c \<in> set s. isWhiteSpace c)"
proof -
  have "trim s = [] \<longleftrightarrow> dropWhile isWhiteSpace (rev (dropWhile isWhiteSpace s)) = []"
    by (simp add: trim_def)
  also have "\<dots> \<longleftrightarrow> (\<forall>x \<in> set (dropWhile isWhiteSpace s). isWhiteSpace x)"
    by (simp only: dropWhile_eq_Nil_conv set_rev)
  also have "\<dots> \<longleftrightarrow> dropWhile isWhiteSpace s = []"
    by (rule dropWhile_all_iff)
  also have "\<dots> \<longleftrightarrow> (\<forall>c \<in> set s. isWhiteSpace c)"
    by (simp only: dropWhile_eq_Nil_conv)
  finally show ?thesis .
qed

lemma find_SomeD: "find P xs = Some x \<Longrightarrow> x \<in> set xs \<and> P x"
  by (induction xs) (auto split: if_splits)

lemma colon_not_white: "\<not> isWhiteSpace (CHR '':'')"
  by (simp add: isWhiteSpace_def)

lemma hasColon_trim: "hasColon line \<Longrightarrow> trim line \<noteq> []"
  using colon_not_white by (auto simp: trim_Nil_iff hasColon_def)

lemma indexOf_colon:
  "indexOf line c = (if c \<in> set line then int (length (takeWhile (\<lambda>x. x \<noteq> c) line)) else - 1)"
  by (simp add: indexOf_def)

lemma headerLine_eq:
  "headerLine head line =
     (if hasColon line then objSet head (lineKey line) (lineValue line) else head)"
proof (cases "hasColon line")
  case False
  then show ?thesis by (simp add: headerLine_def indexOf_def hasColon_def)
next
  case True
  let ?n = "length (takeWhile (\<lambda>x. x \<noteq> CHR '':'') line)"
  have idx: "indexOf line (CHR '':'') = int ?n"
    using True by (simp add: indexOf_def hasColon_def)
  have k: "slice line 0 (int ?n) = takeWhile (\<lambda>x. x \<noteq> CHR '':'') line"
    by (simp add: slice_def takeWhile_eq_take [symmetric])
  have v: "sliceFrom line (int ?n + 1) = drop 1 (dropWhile (\<lambda>x. x \<noteq> CHR '':'') line)"
    by (simp add: sliceFrom_def dropWhile_eq_drop nat_add_distrib)
  show ?thesis
    using True hasColon_trim [OF True]
    by (simp add: headerLine_def idx k v lineKey_def lineValue_def Let_def)
qed

lemma foldl_lines_lookup:
  assumes step: "\<And>m l. step m l =
      (if hasColon l then objSet m (lineKey l) (g (lineValue l)) else m)"
  shows "foldl step m ls k =
     (case find (\<lambda>l. hasColon l \<and> lineKey l = k \<and> k \<noteq> ''__proto__'') (rev ls) of
        None \<Rightarrow> m k
      | Some l \<Rightarrow> Some (g (lineValue l)))"
proof (induction ls arbitrary: m rule: rev_induct)
  case Nil
  then show ?case by simp
next
  case (snoc l ls)
  define sets where "sets = (\<lambda>l. hasColon l \<and> lineKey l = k \<and> k \<noteq> ''__proto__'')"
  have IH: "foldl step m ls k =
      (case find sets (rev ls) of None \<Rightarrow> m k | Some l \<Rightarrow> Some (g (lineValue l)))"
    unfolding sets_def by (rule snoc.IH)
  have last: "foldl step m (ls @ [l]) =
      (if hasColon l then objSet (foldl step m ls) (lineKey l) (g (lineValue l))
       else foldl step m ls)"
    using step [of "foldl step m ls" l] by simp
  have found: "find sets (rev (ls @ [l])) = (if sets l then Some l else find sets (rev ls))"
    by simp
  have "foldl step m (ls @ [l]) k =
      (case find sets (rev (ls @ [l])) of None \<Rightarrow> m k | Some l \<Rightarrow> Some (g (lineValue l)))"
  proof (cases "sets l")
    case True
    then have "foldl step m (ls @ [l]) k = Some (g (lineValue l))"
      by (simp only: last) (simp add: objSet_def sets_def)
    then show ?thesis using True by (simp only: found) simp
  next
    case False
    then have "foldl step m (ls @ [l]) k = foldl step m ls k"
      by (simp only: last) (auto simp: objSet_def sets_def)
    then show ?thesis using False IH by (simp only: found) simp
  qed
  then show ?case unfolding sets_def .
qed

lemma foldl_headerLine_lookup:
  "foldl headerLine m ls k =
     (case find (\<lambda>l. hasColon l \<and> lineKey l = k \<and> k \<noteq> ''__proto__'') (rev ls) of
        None \<Rightarrow> m k
      | Some l \<Rightarrow> Some (lineValue l))"
  using foldl_lines_lookup [of headerLine "\<lambda>v. v"] headerLine_eq by simp

lemma parseHeader_lookup:
  "parseHeader h k =
     (case find (\<lambda>l. hasColon l \<and> lineKey l = k \<and> k \<noteq> ''__proto__'') (rev (splitLines h)) of
        None \<Rightarrow> None
      | Some l \<Rightarrow> Some (lineValue l))"
  by (simp add: parseHeader_def foldl_headerLine_lookup)

lemma dom_parseHeader:
  "dom (parseHeader h) =
     {lineKey l | l. l \<in> set (splitLines h) \<and> hasColon l} - {''__proto__''}"
proof (rule set_eqI)
  fix k
  show "k \<in> dom (parseHeader h) \<longleftrightarrow>
      k \<in> {lineKey l | l. l \<in> set (splitLines h) \<and> hasColon l} - {''__proto__''}"
  proof (cases "find (\<lambda>l. hasColon l \<and> lineKey l = k \<and> k \<noteq> ''__proto__'') (rev (splitLines h))")
    case None
    then have "parseHeader h k = None" by (simp add: parseHeader_lookup)
    moreover from None have "\<not> (\<exists>l \<in> set (splitLines h). hasColon l \<and> lineKey l = k \<and> k \<noteq> ''__proto__'')"
      by (simp add: find_None_iff)
    ultimately show ?thesis by auto
  next
    case (Some l)
    then have "parseHeader h k = Some (lineValue l)" by (simp add: parseHeader_lookup)
    moreover from Some have "l \<in> set (splitLines h) \<and> hasColon l \<and> lineKey l = k \<and> k \<noteq> ''__proto__''"
      using find_SomeD by fastforce
    ultimately show ?thesis by auto
  qed
qed

text \<open>
  \<^bold>\<open>Claim C3.\<close> For every input string in which the delimiter (a line feed, \<^verbatim>\<open>---\<close>, a
  line feed) does not occur, \<^verbatim>\<open>parseMetaTxt\<close> returns the header read from the whole text
  with \<^verbatim>\<open>description\<close> set to the empty string. The header is read line by line: a line
  with a colon assigns the trimmed text after the first colon to the trimmed text before
  it, a line without a colon changes nothing. For every input string \<^verbatim>\<open>parseMetaTxt\<close>
  returns a result: the exception it could throw, a method call on an undefined
  \<^verbatim>\<open>headRaw\<close>, cannot happen, since \<^verbatim>\<open>split\<close> never returns an empty array.
\<close>

theorem parseMetaTxt_without_delimiter:
  "(\<not> includesStr txt delimiter \<longrightarrow>
      parseMetaTxt txt = Inr ((parseHeader txt)(''description'' \<mapsto> [])))
   \<and> parseHeader txt = foldl headerLine Map.empty (splitLines txt)
   \<and> headerLine head line =
       (if hasColon line then objSet head (lineKey line) (lineValue line) else head)
   \<and> (\<exists>m. parseMetaTxt txt = Inr m)"
  using parseMetaTxt_no_delimiter parseMetaTxt_total
  by (simp add: headerLine_eq parseHeader_def)

theorem parseMetaTxt_without_delimiter_witness:
  "\<not> includesStr (''title: Rocket'' @ [CHR 0x0A] @ ''no colon here'' @ [CHR 0x0A] @ ''---'') delimiter
   \<and> parseMetaTxt (''title: Rocket'' @ [CHR 0x0A] @ ''no colon here'' @ [CHR 0x0A] @ ''---'')
       = Inr [''title'' \<mapsto> ''Rocket'', ''description'' \<mapsto> []]"
proof -
  let ?txt = "''title: Rocket'' @ [CHR 0x0A] @ ''no colon here'' @ [CHR 0x0A] @ ''---''"
  have nd: "\<not> includesStr ?txt delimiter"
    by (simp add: delimiter_def)
  have "parseHeader ?txt = [''title'' \<mapsto> ''Rocket'']"
    by (simp add: parseHeader_def headerLine_def objSet_def trim_def isWhiteSpace_def
        indexOf_def slice_def sliceFrom_def)
  then show ?thesis
    using parseMetaTxt_without_delimiter [of ?txt] nd by simp
qed

text \<open>
  \<^bold>\<open>Claim C2.\<close> The claim says that the keys of the result are exactly the keys of the
  header lines. On a text whose header holds the line \<^verbatim>\<open>__proto__: x\<close> the result has no
  key \<^verbatim>\<open>__proto__\<close>: \<^verbatim>\<open>head[key] = value\<close> on the object literal \<^verbatim>\<open>{}\<close> runs the setter of
  \<^verbatim>\<open>Object.prototype\<close>, which drops a string. The theorem evaluates the parser on the
  text \<^verbatim>\<open>__proto__: x\<close>, delimiter, \<^verbatim>\<open>body\<close>: the header line has a colon, the key
  \<^verbatim>\<open>__proto__\<close> and the value \<^verbatim>\<open>x\<close>, and the result holds the description only.
\<close>

theorem parseMetaTxt_proto_key:
  "hasColon ''__proto__: x'' \<and> lineKey ''__proto__: x'' = ''__proto__''
   \<and> lineValue ''__proto__: x'' = ''x''
   \<and> parseMetaTxt (''__proto__: x'' @ delimiter @ ''body'') = Inr [''description'' \<mapsto> ''body'']"
proof -
  have "hasColon ''__proto__: x''" "lineKey ''__proto__: x'' = ''__proto__''"
    "lineValue ''__proto__: x'' = ''x''"
    by code_simp+
  moreover have "parseMetaTxt (''__proto__: x'' @ delimiter @ ''body'')
      = Inr [''description'' \<mapsto> ''body'']"
    by (simp add: parseMetaTxt_def delimiter_def parseHeader_def headerLine_def objSet_def
        trim_def isWhiteSpace_def indexOf_def slice_def sliceFrom_def)
  ultimately show ?thesis by blast
qed

text \<open>
  For every other key the claim holds. When the first delimiter of the text stands
  after \<open>h\<close>, the result is the header read from \<open>h\<close> with \<^verbatim>\<open>description\<close> set to the
  trimmed text after that delimiter, further delimiters in it included; its keys are
  \<^verbatim>\<open>description\<close> and the keys of the lines of \<open>h\<close> that have a colon, \<^verbatim>\<open>__proto__\<close> left
  out; and the value of a key is that of the last line with this key.
\<close>

lemma parseMetaTxt_with_delimiter:
  assumes "\<not> includesStr (h @ butlast delimiter) delimiter"
  shows "parseMetaTxt (h @ delimiter @ b) = Inr ((parseHeader h)(''description'' \<mapsto> trim b))"
    and "\<And>m. parseMetaTxt (h @ delimiter @ b) = Inr m \<Longrightarrow>
      dom m = ({lineKey l | l. l \<in> set (splitLines h) \<and> hasColon l} - {''__proto__''})
              \<union> {''description''}"
proof -
  show eq: "parseMetaTxt (h @ delimiter @ b) = Inr ((parseHeader h)(''description'' \<mapsto> trim b))"
    using assms by (rule parseMetaTxt_delimited)
  show "dom m = ({lineKey l | l. l \<in> set (splitLines h) \<and> hasColon l} - {''__proto__''})
              \<union> {''description''}" if "parseMetaTxt (h @ delimiter @ b) = Inr m" for m
  proof -
    have "m = (parseHeader h)(''description'' \<mapsto> trim b)" using eq that by simp
    then show ?thesis by (simp add: dom_parseHeader insert_commute Un_commute)
  qed
qed

subsection \<open>Comparators and sorting\<close>















text \<open>
  \<^bold>\<open>Claim C6.\<close> The claim says that the fallback compares the slugs by a plain string
  comparison that is not locale-aware. The comparator calls \<^verbatim>\<open>a.slug.localeCompare(b.slug)\<close>,
  the collation of the host's default locale. On a host whose collation orders letters
  by the alphabet before their case, as that of Node does, the dateless item \<^verbatim>\<open>alpha\<close>
  is before the dateless item \<^verbatim>\<open>Beta\<close>, while the comparison of the code units puts
  \<^verbatim>\<open>Beta\<close> first.
\<close>

theorem newsCompare_slug_not_plain:
  "\<not> hasDate (news.date (exampleNews ''alpha'' None))
   \<and> newsCompare collatingHost (exampleNews ''alpha'' None) (exampleNews ''Beta'' None) < 0
   \<and> 0 < codeUnitCompare (news.slug (exampleNews ''alpha'' None))
           (news.slug (exampleNews ''Beta'' None))"
  by code_simp

text \<open>
  \<^bold>\<open>Claim C6, as amended.\<close> For every host and every two news records, the comparator is
  the comparison of the date of the second with the date of the first when both have a
  date, and in every other case the comparison of the slug of the first with the slug of
  the second; both are \<^verbatim>\<open>localeCompare\<close> without a locale argument, the collation of
  the host's default locale. No case places a dated item before a dateless one.
\<close>

theorem newsCompare_rule:
  "(hasDate (news.date a) \<and> hasDate (news.date b) \<longrightarrow>
      newsCompare h a b = localeCompare h (the (news.date b)) (the (news.date a)) None)
   \<and> (\<not> (hasDate (news.date a) \<and> hasDate (news.date b)) \<longrightarrow>
      newsCompare h a b = localeCompare h (news.slug a) (news.slug b) None)"
  by (simp add: newsCompare_def hasDate_def)

theorem newsCompare_rule_witness:
  "hasDate (news.date (exampleNews ''zeta'' (Some ''2024-06-01'')))
   \<and> hasDate (news.date (exampleNews ''old'' (Some ''2023-01-01'')))
   \<and> \<not> hasDate (news.date (exampleNews ''alpha'' None))
   \<and> newsCompare siteHost (exampleNews ''zeta'' (Some ''2024-06-01''))
        (exampleNews ''old'' (Some ''2023-01-01'')) = - 1
   \<and> newsCompare siteHost (exampleNews ''zeta'' (Some ''2024-06-01''))
        (exampleNews ''alpha'' None) = 1"
proof -
  let ?z = "exampleNews ''zeta'' (Some ''2024-06-01'')"
  let ?o = "exampleNews ''old'' (Some ''2023-01-01'')"
  let ?a = "exampleNews ''alpha'' None"
  have dates: "hasDate (news.date ?z)" "hasDate (news.date ?o)" "\<not> hasDate (news.date ?a)"
    by (simp_all add: exampleNews_def hasDate_def truthy_def)
  have "newsCompare siteHost ?z ?o
      = localeCompare siteHost (the (news.date ?o)) (the (news.date ?z)) None"
    using newsCompare_rule [of ?z ?o siteHost] dates by blast
  then have zo: "newsCompare siteHost ?z ?o = - 1"
    by (simp add: exampleNews_def siteHost_def)
  have "newsCompare siteHost ?z ?a = localeCompare siteHost (news.slug ?z) (news.slug ?a) None"
    using newsCompare_rule [of ?z ?a siteHost] dates by blast
  then have za: "newsCompare siteHost ?z ?a = 1"
    by (simp add: exampleNews_def siteHost_def)
  show ?thesis using dates zo za by blast
qed

subsection \<open>Lines of the stats document\<close>








end
